theory Spec2Isabelle
  imports Complex_Main
begin

section \<open>Solver status codes\<close>

text \<open>
  The adapter compares its stored status with the status codes of the wrapped solver.
  The codes are the integer constants of the solver's public C header, which is not
  part of the repository; they are listed here with the values that header gives them.
\<close>

definition GRB_LOADED :: int where "GRB_LOADED = 1"
definition GRB_OPTIMAL :: int where "GRB_OPTIMAL = 2"
definition GRB_INFEASIBLE :: int where "GRB_INFEASIBLE = 3"
definition GRB_INF_OR_UNBD :: int where "GRB_INF_OR_UNBD = 4"
definition GRB_UNBOUNDED :: int where "GRB_UNBOUNDED = 5"
definition GRB_CUTOFF :: int where "GRB_CUTOFF = 6"
definition GRB_ITERATION_LIMIT :: int where "GRB_ITERATION_LIMIT = 7"
definition GRB_NODE_LIMIT :: int where "GRB_NODE_LIMIT = 8"
definition GRB_TIME_LIMIT :: int where "GRB_TIME_LIMIT = 9"
definition GRB_SOLUTION_LIMIT :: int where "GRB_SOLUTION_LIMIT = 10"
definition GRB_INTERRUPTED :: int where "GRB_INTERRUPTED = 11"
definition GRB_NUMERIC :: int where "GRB_NUMERIC = 12"
definition GRB_SUBOPTIMAL :: int where "GRB_SUBOPTIMAL = 13"
definition GRB_INPROGRESS :: int where "GRB_INPROGRESS = 14"
definition GRB_USER_OBJ_LIMIT :: int where "GRB_USER_OBJ_LIMIT = 15"

definition GRB_CONTINUOUS :: char where "GRB_CONTINUOUS = CHR ''C''"
definition GRB_LESS_EQUAL :: char where "GRB_LESS_EQUAL = CHR ''<''"
definition GRB_EQUAL :: char where "GRB_EQUAL = CHR ''=''"

section \<open>Dense and sparse linear algebra values\<close>

text \<open>
  A dense vector (\<open>VectorXd\<close>) is the list of its coefficients. A dense matrix
  (\<open>MatrixXd\<close>) always holds \<open>rows * cols\<close> coefficients; it is given by its two
  dimensions and its coefficient function, and \<open>data()\<close> enumerates the coefficients
  column by column (the library's default storage order). Doubles are modelled as reals.
\<close>

type_synonym VectorXd = "real list"

record MatrixXd =
  md_rows :: nat
  md_cols :: nat
  md_coeff :: "nat \<Rightarrow> nat \<Rightarrow> real"

definition md_size :: "MatrixXd \<Rightarrow> nat" where
  "md_size A = md_rows A * md_cols A"

definition md_data :: "MatrixXd \<Rightarrow> real list" where
  "md_data A = map (\<lambda>i. md_coeff A (i mod md_rows A) (i div md_rows A)) [0..<md_size A]"

definition md_col :: "MatrixXd \<Rightarrow> nat \<Rightarrow> real list" where
  "md_col A i = map (\<lambda>j. md_coeff A j i) [0..<md_rows A]"

text \<open>
  A sparse matrix (\<open>SparseMatrix<double>\<close>, column major) has a row count and, for
  each outer index (column), the stored entries as pairs of inner index (row) and value,
  in the order the inner iterator visits them. A sparse vector has a size and its stored
  entries as pairs of index and value.
\<close>

record SparseMatrix =
  sm_rows :: nat
  sm_outer :: "(nat \<times> real) list list"

record SparseVector =
  sv_size :: nat
  sv_entries :: "(nat \<times> real) list"

definition outerSize :: "SparseMatrix \<Rightarrow> nat" where
  "outerSize A = length (sm_outer A)"

text \<open>The stored entries of a sparse matrix as triples (row, column, value), in
  the order of the two nested iteration loops of the source.\<close>

definition sm_triples :: "SparseMatrix \<Rightarrow> (nat \<times> nat \<times> real) list" where
  "sm_triples A =
     concat (map (\<lambda>k. map (\<lambda>(r, a). (r, k, a)) (sm_outer A ! k)) [0..<outerSize A])"

text \<open>\<open>resize\<close> of a dense vector: a vector that already has the requested size is
  left as it is; otherwise the storage is reallocated and its contents are not
  specified by the library (zeros here; nothing below reads them).\<close>

definition resize_vec :: "nat \<Rightarrow> VectorXd \<Rightarrow> VectorXd" where
  "resize_vec n v = (if length v = n then v else replicate n 0)"

definition resize_mat :: "nat \<Rightarrow> nat \<Rightarrow> MatrixXd \<Rightarrow> MatrixXd" where
  "resize_mat r c A = A\<lparr>md_rows := r, md_cols := c\<rparr>"


section \<open>The object model of the wrapped solver\<close>

text \<open>
  The solver's model object is external to the repository. The adapter only uses it as
  a store: variables and constraints are created, removed and addressed by handles,
  each carrying attributes; constraints and variables are linked by coefficients; the
  model has an objective, parameters, and the attributes that an optimization run
  leaves behind. Handles are numbers drawn from counters, so a handle is never reused.
  Variables and constraints are kept in creation order, as the solver indexes them.
\<close>

type_synonym GRBVar = nat
type_synonym GRBConstr = nat

record GRBVarAttr =
  VType :: char
  LB :: real
  UB :: real

record GRBConstrAttr =
  Sense :: char
  RHS :: real

record GRBQuadExpr =
  qe_quad :: "(real \<times> GRBVar \<times> GRBVar) list"
  qe_lin :: "(real \<times> GRBVar) list"

record GRBModel =
  m_vars :: "(GRBVar \<times> GRBVarAttr) list"
  m_constrs :: "(GRBConstr \<times> GRBConstrAttr) list"
  m_coeff :: "GRBConstr \<times> GRBVar \<Rightarrow> real"
  m_objective :: GRBQuadExpr
  m_nextvar :: nat
  m_nextconstr :: nat
  IntParam_OutputFlag :: int
  IntParam_MultiObjMethod :: int
  DoubleParam_FeasibilityTol :: real
  DoubleParam_OptimalityTol :: real
  IntAttr_Status :: int
  IntAttr_BarIterCount :: int
  DoubleAttr_X :: "GRBVar \<Rightarrow> real"
  DoubleAttr_Pi :: "GRBConstr \<Rightarrow> real"

definition GRB_INFINITY :: real where "GRB_INFINITY = 10 ^ 100"

definition empty_expr :: GRBQuadExpr where
  "empty_expr = \<lparr>qe_quad = [], qe_lin = []\<rparr>"

text \<open>A new model: no variables, no constraints, an empty objective, the solver's
  default parameter values, status "loaded".\<close>

definition new_model :: GRBModel where
  "new_model = \<lparr>m_vars = [], m_constrs = [], m_coeff = (\<lambda>_. 0),
     m_objective = empty_expr, m_nextvar = 0, m_nextconstr = 0,
     IntParam_OutputFlag = 1, IntParam_MultiObjMethod = - 1,
     DoubleParam_FeasibilityTol = 1 / 10 ^ 6, DoubleParam_OptimalityTol = 1 / 10 ^ 6,
     IntAttr_Status = GRB_LOADED, IntAttr_BarIterCount = 0,
     DoubleAttr_X = (\<lambda>_. 0), DoubleAttr_Pi = (\<lambda>_. 0)\<rparr>"

definition var_handles :: "GRBModel \<Rightarrow> GRBVar list" where
  "var_handles m = map fst (m_vars m)"

definition constr_handles :: "GRBModel \<Rightarrow> GRBConstr list" where
  "constr_handles m = map fst (m_constrs m)"

definition var_attr :: "GRBModel \<Rightarrow> GRBVar \<Rightarrow> GRBVarAttr option" where
  "var_attr m v = map_of (m_vars m) v"

definition constr_attr :: "GRBModel \<Rightarrow> GRBConstr \<Rightarrow> GRBConstrAttr option" where
  "constr_attr m c = map_of (m_constrs m) c"

text \<open>\<open>addVars(n, type)\<close>: \<open>n\<close> new variables of the given type with the default
  bounds; the array of their handles is returned.\<close>

definition addVars :: "nat \<Rightarrow> char \<Rightarrow> GRBModel \<Rightarrow> GRBVar list \<times> GRBModel" where
  "addVars n ty m =
     (let hs = [m_nextvar m ..< m_nextvar m + n]
      in (hs, m\<lparr>m_vars := m_vars m @ map (\<lambda>h. (h, \<lparr>VType = ty, LB = 0, UB = GRB_INFINITY\<rparr>)) hs,
                m_nextvar := m_nextvar m + n\<rparr>))"

text \<open>\<open>addConstrs(n)\<close>: \<open>n\<close> new empty constraints (no coefficients, right-hand
  side 0, sense \<open><\<close>).\<close>

definition addConstrs :: "nat \<Rightarrow> GRBModel \<Rightarrow> GRBConstr list \<times> GRBModel" where
  "addConstrs n m =
     (let hs = [m_nextconstr m ..< m_nextconstr m + n]
      in (hs, m\<lparr>m_constrs := m_constrs m @ map (\<lambda>h. (h, \<lparr>Sense = GRB_LESS_EQUAL, RHS = 0\<rparr>)) hs,
                m_nextconstr := m_nextconstr m + n\<rparr>))"

text \<open>Removing a variable or a constraint removes its coefficients with it; removing a
  variable also removes the objective terms that mention it.\<close>

definition remove_var :: "GRBModel \<Rightarrow> GRBVar \<Rightarrow> GRBModel" where
  "remove_var m v =
     m\<lparr>m_vars := filter (\<lambda>(h, a). h \<noteq> v) (m_vars m),
       m_coeff := (\<lambda>(c, w). if w = v then 0 else m_coeff m (c, w)),
       m_objective :=
         \<lparr>qe_quad = filter (\<lambda>(a, x, y). x \<noteq> v \<and> y \<noteq> v) (qe_quad (m_objective m)),
          qe_lin = filter (\<lambda>(a, x). x \<noteq> v) (qe_lin (m_objective m))\<rparr>\<rparr>"

definition remove_constr :: "GRBModel \<Rightarrow> GRBConstr \<Rightarrow> GRBModel" where
  "remove_constr m c =
     m\<lparr>m_constrs := filter (\<lambda>(h, a). h \<noteq> c) (m_constrs m),
       m_coeff := (\<lambda>(d, w). if d = c then 0 else m_coeff m (d, w))\<rparr>"

text \<open>Attribute setters for one handle. A handle that is not in the model has no
  attributes to set.\<close>

definition upd_attr :: "('a \<Rightarrow> 'a) \<Rightarrow> nat \<Rightarrow> (nat \<times> 'a) list \<Rightarrow> (nat \<times> 'a) list" where
  "upd_attr f h xs = map (\<lambda>(k, a). if k = h then (k, f a) else (k, a)) xs"

definition set_VType :: "GRBVar \<Rightarrow> char \<Rightarrow> GRBModel \<Rightarrow> GRBModel" where
  "set_VType v t m = m\<lparr>m_vars := upd_attr (\<lambda>a. a\<lparr>VType := t\<rparr>) v (m_vars m)\<rparr>"

definition set_LB :: "GRBVar \<Rightarrow> real \<Rightarrow> GRBModel \<Rightarrow> GRBModel" where
  "set_LB v x m = m\<lparr>m_vars := upd_attr (\<lambda>a. a\<lparr>LB := x\<rparr>) v (m_vars m)\<rparr>"

definition set_UB :: "GRBVar \<Rightarrow> real \<Rightarrow> GRBModel \<Rightarrow> GRBModel" where
  "set_UB v x m = m\<lparr>m_vars := upd_attr (\<lambda>a. a\<lparr>UB := x\<rparr>) v (m_vars m)\<rparr>"

definition set_Sense :: "GRBConstr \<Rightarrow> char \<Rightarrow> GRBModel \<Rightarrow> GRBModel" where
  "set_Sense c t m = m\<lparr>m_constrs := upd_attr (\<lambda>a. a\<lparr>Sense := t\<rparr>) c (m_constrs m)\<rparr>"

definition set_RHS :: "GRBConstr \<Rightarrow> real \<Rightarrow> GRBModel \<Rightarrow> GRBModel" where
  "set_RHS c x m = m\<lparr>m_constrs := upd_attr (\<lambda>a. a\<lparr>RHS := x\<rparr>) c (m_constrs m)\<rparr>"

text \<open>The array forms \<open>model.set(attr, handles, values, n)\<close> set the attribute of the
  first \<open>n\<close> handles from the first \<open>n\<close> values, in order.\<close>

definition set_array ::
  "('h \<Rightarrow> 'x \<Rightarrow> GRBModel \<Rightarrow> GRBModel) \<Rightarrow> 'h list \<Rightarrow> 'x list \<Rightarrow> nat \<Rightarrow> GRBModel \<Rightarrow> GRBModel" where
  "set_array f hs xs n m = foldl (\<lambda>m' (h, x). f h x m') m (zip (take n hs) (take n xs))"

text \<open>\<open>chgCoeff(c, v, a)\<close> sets one coefficient; \<open>chgCoeffs(cs, vs, as, n)\<close> sets
  the coefficient of the \<open>j\<close>-th constraint and the \<open>j\<close>-th variable to the \<open>j\<close>-th
  value, for \<open>j < n\<close>.\<close>

definition chgCoeff :: "GRBConstr \<Rightarrow> GRBVar \<Rightarrow> real \<Rightarrow> GRBModel \<Rightarrow> GRBModel" where
  "chgCoeff c v a m = m\<lparr>m_coeff := (m_coeff m)((c, v) := a)\<rparr>"

definition chgCoeffs ::
  "GRBConstr list \<Rightarrow> GRBVar list \<Rightarrow> real list \<Rightarrow> nat \<Rightarrow> GRBModel \<Rightarrow> GRBModel" where
  "chgCoeffs cs vs as n m =
     foldl (\<lambda>m' (c, v, a). chgCoeff c v a m') m
       (zip (take n cs) (zip (take n vs) (take n as)))"

definition setObjective :: "GRBQuadExpr \<Rightarrow> GRBModel \<Rightarrow> GRBModel" where
  "setObjective e m = m\<lparr>m_objective := e\<rparr>"

text \<open>
  The optimization run itself is the solver's. It is a parameter of the embedding: a
  function from the configured model to what the run leaves behind (status, barrier
  iteration count, primal values, dual values). \<open>optimize\<close> stores that in the model,
  where the attribute getters read it.
\<close>

record solution =
  sol_status :: int
  sol_iter :: int
  sol_x :: "GRBVar \<Rightarrow> real"
  sol_pi :: "GRBConstr \<Rightarrow> real"

type_synonym solver = "GRBModel \<Rightarrow> solution"

definition optimize :: "solver \<Rightarrow> GRBModel \<Rightarrow> GRBModel" where
  "optimize slv m =
     (let r = slv m
      in m\<lparr>IntAttr_Status := sol_status r, IntAttr_BarIterCount := sol_iter r,
           DoubleAttr_X := sol_x r, DoubleAttr_Pi := sol_pi r\<rparr>)"

definition get_X :: "GRBModel \<Rightarrow> GRBVar list \<Rightarrow> nat \<Rightarrow> real list" where
  "get_X m vs n = map (DoubleAttr_X m) (take n vs)"

definition get_Pi :: "GRBModel \<Rightarrow> GRBConstr list \<Rightarrow> nat \<Rightarrow> real list" where
  "get_Pi m cs n = map (DoubleAttr_Pi m) (take n cs)"


section \<open>GurobiCommon\<close>

text \<open>
  The state of an adapter object. A member \<open>x_\<close> of the class is the field \<open>x_'\<close>
  of the record (a name cannot end in an underscore here). The three handle arrays
  returned by the solver (\<open>vars_\<close>, \<open>eqconstr_\<close>, \<open>ineqconstr_\<close>) are lists; before
  the first configuration nothing has been allocated and they are empty. The counts
  \<open>nrvar_\<close>, \<open>nreq_\<close> and \<open>nrineq_\<close> are sizes and are kept as naturals.

  The class declaration is in a header that is not among the sources; the members are
  those the constructor initialises and the methods use. \<open>WarmStatus\<close> is an
  enumeration class of that header, cast to and from \<open>int\<close> by the two \<open>warmStart\<close>
  methods; a value of it is its underlying integer.
\<close>

datatype WarmStatus = WarmStatus (underlying: int)

datatype error = AssertionFailed string | OutOfBounds | GRBException

record GurobiCommon =
  Q_' :: MatrixXd
  C_' :: VectorXd
  Beq_' :: VectorXd
  Bineq_' :: VectorXd
  X_' :: VectorXd
  Yeq_' :: VectorXd
  Yineq_' :: VectorXd
  status_' :: int
  nrvar_' :: nat
  nreq_' :: nat
  nrineq_' :: nat
  iter_' :: int
  model_' :: GRBModel
  vars_' :: "GRBVar list"
  eqconstr_' :: "GRBConstr list"
  ineqconstr_' :: "GRBConstr list"
  eqvars_' :: "GRBVar list"
  ineqvars_' :: "GRBVar list"
  lvars_' :: "GRBVar list"
  rvars_' :: "GRBVar list"

text \<open>The constructor.\<close>

definition GurobiCommon_new :: GurobiCommon where
  "GurobiCommon_new =
     \<lparr>Q_' = \<lparr>md_rows = 0, md_cols = 0, md_coeff = (\<lambda>_ _. 0)\<rparr>,
      C_' = [], Beq_' = [], Bineq_' = [], X_' = [], Yeq_' = [], Yineq_' = [],
      status_' = 0, nrvar_' = 0, nreq_' = 0, nrineq_' = 0, iter_' = 0,
      model_' = new_model, vars_' = [], eqconstr_' = [], ineqconstr_' = [],
      eqvars_' = [], ineqvars_' = [], lvars_' = [], rvars_' = []\<rparr>"

definition iter :: "GurobiCommon \<Rightarrow> int" where
  "iter s = iter_' s"

definition status :: "GurobiCommon \<Rightarrow> int" where
  "status s = status_' s"

definition success :: "GurobiCommon \<Rightarrow> bool" where
  "success s \<longleftrightarrow> status_' s = GRB_OPTIMAL \<or> status_' s = GRB_SUBOPTIMAL"

text \<open>The three retrieval operations either return a stored vector or throw a string
  literal; the thrown literal is the left injection.\<close>

definition result :: "GurobiCommon \<Rightarrow> string + VectorXd" where
  "result s =
     (if success s then Inr (X_' s)
      else Inl ''solve unsuccessful; unable to retrieve result'')"

definition dual_eq :: "GurobiCommon \<Rightarrow> string + VectorXd" where
  "dual_eq s =
     (if success s then Inr (Yeq_' s)
      else Inl ''solve unsuccessful; unable to retrieve dual_eq'')"

definition dual_ineq :: "GurobiCommon \<Rightarrow> string + VectorXd" where
  "dual_ineq s =
     (if success s then Inr (Yineq_' s)
      else Inl ''solve unsuccessful; unable to retrieve dual_ineq'')"

definition warmStart :: "GurobiCommon \<Rightarrow> WarmStatus" where
  "warmStart s = WarmStatus (IntParam_MultiObjMethod (model_' s))"

definition warmStart_set :: "WarmStatus \<Rightarrow> GurobiCommon \<Rightarrow> GurobiCommon" where
  "warmStart_set warmStatus s =
     s\<lparr>model_' := (model_' s)\<lparr>IntParam_MultiObjMethod := underlying warmStatus\<rparr>\<rparr>"

definition not_run_message :: string where
  "not_run_message = ''The solver has not been runned yet''"

definition statusDescription :: "GurobiCommon \<Rightarrow> string" where
  "statusDescription s =
    (if status_' s = GRB_LOADED then
       ''Model is loaded, but no solution information is available.''
     else if status_' s = GRB_OPTIMAL then
       ''Model was solved to optimality (subject to tolerances), and an optimal solution is available.''
     else if status_' s = GRB_INFEASIBLE then
       ''Model was proven to be infeasible.''
     else if status_' s = GRB_INF_OR_UNBD then
       ''Model was proven to be either infeasible or unbounded. To obtain a more definitive conclusion,''
       @ '' set the DualReductions parameter to 0 and reoptimize.''
     else if status_' s = GRB_UNBOUNDED then
       ''Model was proven to be unbounded. ''
       @ ''Important note: an unbounded status indicates the presence of an unbounded ray that allows the objective to improve without limit. ''
       @ ''It says nothing about whether the model has a feasible solution. ''
       @ ''If you require information on feasibility, you should set the objective to zero and reoptimize.''
     else if status_' s = GRB_CUTOFF then
       ''Optimal objective for model was proven to be worse than the value specified in the Cutoff parameter. ''
       @ ''No solution information is available.''
     else if status_' s = GRB_ITERATION_LIMIT then
       ''Optimization terminated because the total number of simplex iterations performed exceeded the value specified in the IterationLimit parameter,''
       @ '' or because the total number of barrier iterations exceeded the value specified in the BarIterLimit parameter.''
     else if status_' s = GRB_NODE_LIMIT then
       ''Optimization terminated because the total number of branch-and-cut nodes explored exceeded the value specified in the NodeLimit parameter.''
     else if status_' s = GRB_TIME_LIMIT then
       ''Optimization terminated because the time expended exceeded the value specified in the TimeLimit parameter.''
     else if status_' s = GRB_SOLUTION_LIMIT then
       ''Optimization terminated because the number of solutions found reached the value specified in the SolutionLimit parameter.''
     else if status_' s = GRB_INTERRUPTED then
       ''Optimization was terminated by the user.''
     else if status_' s = GRB_NUMERIC then
       ''Optimization was terminated due to unrecoverable numerical difficulties.''
     else if status_' s = GRB_SUBOPTIMAL then
       ''Unable to satisfy optimality tolerances; a sub-optimal solution is available.''
     else if status_' s = GRB_INPROGRESS then
       ''An asynchronous optimization call was made, but the associated optimization run is not yet complete.''
     else if status_' s = GRB_USER_OBJ_LIMIT then
       ''User specified an objective limit (a bound on either the best objective or the best bound), and that limit has been reached.''
     else not_run_message)"

definition displayOutput :: "bool \<Rightarrow> GurobiCommon \<Rightarrow> GurobiCommon" where
  "displayOutput doDisplay s =
     s\<lparr>model_' := (model_' s)\<lparr>IntParam_OutputFlag := (if doDisplay then 1 else 0)\<rparr>\<rparr>"

definition feasibilityTolerance :: "GurobiCommon \<Rightarrow> real" where
  "feasibilityTolerance s = DoubleParam_FeasibilityTol (model_' s)"

text \<open>The setters start with \<open>assert(1e-2 >= tol && tol >= 1e-9)\<close>; a failed
  assertion ends the program.\<close>

definition feasibilityTolerance_set :: "real \<Rightarrow> GurobiCommon \<Rightarrow> error + GurobiCommon" where
  "feasibilityTolerance_set tol s =
     (if 1 / 10 ^ 2 \<ge> tol \<and> tol \<ge> 1 / 10 ^ 9
      then Inr (s\<lparr>model_' := (model_' s)\<lparr>DoubleParam_FeasibilityTol := tol\<rparr>\<rparr>)
      else Inl (AssertionFailed ''1e-2 >= tol && tol >= 1e-9''))"

definition optimalityTolerance :: "GurobiCommon \<Rightarrow> real" where
  "optimalityTolerance s = DoubleParam_OptimalityTol (model_' s)"

definition optimalityTolerance_set :: "real \<Rightarrow> GurobiCommon \<Rightarrow> error + GurobiCommon" where
  "optimalityTolerance_set tol s =
     (if 1 / 10 ^ 2 \<ge> tol \<and> tol \<ge> 1 / 10 ^ 9
      then Inr (s\<lparr>model_' := (model_' s)\<lparr>DoubleParam_OptimalityTol := tol\<rparr>\<rparr>)
      else Inl (AssertionFailed ''1e-2 >= tol && tol >= 1e-9''))"

text \<open>
  \<open>problem(nrvar, nreq, nrineq)\<close>. The three removal loops visit the first
  \<open>nrvar_\<close>, \<open>nreq_\<close> and \<open>nrineq_\<close> handles of the arrays of the previous
  configuration. The loop that fills \<open>ineqvars_\<close> reads the member \<open>nrineq_\<close>, which
  has been assigned by then.
\<close>

definition problem :: "nat \<Rightarrow> nat \<Rightarrow> nat \<Rightarrow> GurobiCommon \<Rightarrow> GurobiCommon" where
  "problem nrvar nreq nrineq s0 =
     (let s1 = s0\<lparr>model_' := foldl remove_var (model_' s0) (take (nrvar_' s0) (vars_' s0))\<rparr>;
          s2 = s1\<lparr>model_' := foldl remove_constr (model_' s1) (take (nreq_' s1) (eqconstr_' s1))\<rparr>;
          s3 = s2\<lparr>model_' := foldl remove_constr (model_' s2) (take (nrineq_' s2) (ineqconstr_' s2))\<rparr>;
          s4 = s3\<lparr>eqvars_' := [], ineqvars_' := [], lvars_' := [], rvars_' := []\<rparr>;
          s5 = s4\<lparr>nrvar_' := nrvar, nreq_' := nreq, nrineq_' := nrineq\<rparr>;
          s6 = s5\<lparr>Q_' := resize_mat nrvar nrvar (Q_' s5)\<rparr>;
          s7 = s6\<lparr>C_' := resize_vec nrvar (C_' s6), Beq_' := resize_vec nreq (Beq_' s6),
                  Bineq_' := resize_vec nrineq (Bineq_' s6), X_' := resize_vec nrvar (X_' s6),
                  Yeq_' := resize_vec nreq (Yeq_' s6), Yineq_' := resize_vec nrineq (Yineq_' s6)\<rparr>;
          (vs, m8) = addVars nrvar GRB_CONTINUOUS (model_' s7);
          s8 = s7\<lparr>model_' := m8, vars_' := vs\<rparr>;
          s9 = s8\<lparr>lvars_' := lvars_' s8 @ map (\<lambda>i. vars_' s8 ! (i div nrvar)) [0..<md_size (Q_' s8)],
                  rvars_' := rvars_' s8 @ map (\<lambda>i. vars_' s8 ! (i mod nrvar)) [0..<md_size (Q_' s8)]\<rparr>;
          (ecs, m10) = addConstrs nreq (model_' s9);
          s10 = s9\<lparr>model_' := m10, eqconstr_' := ecs\<rparr>;
          s11 = s10\<lparr>model_' := set_array set_Sense (eqconstr_' s10) (replicate nreq (CHR ''='')) nreq
                                  (model_' s10)\<rparr>;
          s12 = s11\<lparr>eqvars_' := eqvars_' s11
                                 @ concat (map (\<lambda>i. replicate nreq (vars_' s11 ! i)) [0..<nrvar])\<rparr>;
          (ics, m13) = addConstrs nrineq (model_' s12);
          s13 = s12\<lparr>model_' := m13, ineqconstr_' := ics\<rparr>;
          s14 = s13\<lparr>model_' := set_array set_Sense (ineqconstr_' s13)
                                  (replicate nrineq (CHR ''<'')) nrineq (model_' s13)\<rparr>
      in s14\<lparr>ineqvars_' := ineqvars_' s14
                 @ concat (map (\<lambda>i. replicate (nrineq_' s14) (vars_' s14 ! i)) [0..<nrvar])\<rparr>)"

text \<open>\<open>setVariableType\<close> addresses a variable by its index in the model; the solver
  throws when there is no variable with that index.\<close>

definition setVariableType :: "nat \<Rightarrow> char \<Rightarrow> GurobiCommon \<Rightarrow> error + GurobiCommon" where
  "setVariableType varIndex GRBType s =
     (if varIndex < length (m_vars (model_' s))
      then Inr (s\<lparr>model_' := set_VType (var_handles (model_' s) ! varIndex) GRBType (model_' s)\<rparr>)
      else Inl GRBException)"

text \<open>
  The last part of both \<open>solve\<close> methods is the same text: run the optimization, store
  status and iteration count, copy the primal and dual values out when the status is a
  successful one, return \<open>success()\<close>.
\<close>

definition optimize_and_fetch :: "solver \<Rightarrow> GurobiCommon \<Rightarrow> bool \<times> GurobiCommon" where
  "optimize_and_fetch slv s0 =
     (let s1 = s0\<lparr>model_' := optimize slv (model_' s0)\<rparr>;
          s2 = s1\<lparr>status_' := IntAttr_Status (model_' s1)\<rparr>;
          s3 = s2\<lparr>iter_' := IntAttr_BarIterCount (model_' s2)\<rparr>;
          s4 = (if success s3
                then s3\<lparr>X_' := get_X (model_' s3) (vars_' s3) (nrvar_' s3),
                        Yeq_' := get_Pi (model_' s3) (eqconstr_' s3) (nreq_' s3),
                        Yineq_' := get_Pi (model_' s3) (ineqconstr_' s3) (nrineq_' s3)\<rparr>
                else s3)
      in (success s4, s4))"


section \<open>GurobiDense\<close>

text \<open>
  \<open>updateConstr\<close> first checks its two assertions. Column \<open>i\<close> of \<open>A\<close> is then taken
  for every \<open>i < nrvar_\<close>; a column index that \<open>A\<close> does not have is outside the
  storage of \<open>A\<close>. The variable array is read from offset \<open>len * i\<close>.
\<close>

definition GurobiDense_updateConstr ::
  "GRBConstr list \<Rightarrow> GRBVar list \<Rightarrow> MatrixXd \<Rightarrow> VectorXd \<Rightarrow> nat \<Rightarrow> GurobiCommon
     \<Rightarrow> error + GurobiCommon" where
  "GurobiDense_updateConstr constrs vars A b len s =
     (if md_rows A \<noteq> len then Inl (AssertionFailed ''A.rows() == len'')
      else if length b \<noteq> len then Inl (AssertionFailed ''b.rows() == len'')
      else if len > 0 \<and> md_cols A < nrvar_' s then Inl OutOfBounds
      else
        let s1 = (if len > 0
                  then s\<lparr>model_' :=
                          foldl (\<lambda>m i. chgCoeffs constrs (drop (len * i) vars) (md_col A i)
                                         (md_rows A) m)
                            (model_' s) [0..<nrvar_' s]\<rparr>
                  else s)
        in Inr (s1\<lparr>model_' := set_array set_RHS constrs b len (model_' s1)\<rparr>))"

text \<open>
  \<open>solve\<close> reads \<open>Q.size()\<close> entries of \<open>rvars_\<close> and \<open>lvars_\<close> and \<open>nrvar_\<close>
  entries of \<open>C\<close>, \<open>XL\<close> and \<open>XU\<close> through raw pointers. A call that would read
  past the end of one of them has no defined behaviour; it is the result
  \<open>Inl OutOfBounds\<close>.
\<close>

definition GurobiDense_solve ::
  "solver \<Rightarrow> MatrixXd \<Rightarrow> VectorXd \<Rightarrow> MatrixXd \<Rightarrow> VectorXd \<Rightarrow> MatrixXd \<Rightarrow> VectorXd
     \<Rightarrow> VectorXd \<Rightarrow> VectorXd \<Rightarrow> GurobiCommon \<Rightarrow> error + bool \<times> GurobiCommon" where
  "GurobiDense_solve slv Q C Aeq Beq Aineq Bineq XL XU s0 =
     (if length (rvars_' s0) < md_size Q \<or> length (lvars_' s0) < md_size Q
         \<or> length C < nrvar_' s0 \<or> length (vars_' s0) < nrvar_' s0
         \<or> length XL < nrvar_' s0 \<or> length XU < nrvar_' s0
      then Inl OutOfBounds
      else
        let qexpr = zip (md_data Q) (zip (rvars_' s0) (lvars_' s0));
            lexpr = zip (take (nrvar_' s0) C) (take (nrvar_' s0) (vars_' s0));
            s1 = s0\<lparr>model_' := setObjective
                       \<lparr>qe_quad = map (\<lambda>(a, x, y). (0.5 * a, x, y)) qexpr, qe_lin = lexpr\<rparr>
                       (model_' s0)\<rparr>;
            s2 = s1\<lparr>model_' := set_array set_LB (vars_' s1) XL (nrvar_' s1) (model_' s1)\<rparr>;
            s3 = s2\<lparr>model_' := set_array set_UB (vars_' s2) XU (nrvar_' s2) (model_' s2)\<rparr>
        in case GurobiDense_updateConstr (eqconstr_' s3) (eqvars_' s3) Aeq Beq (nreq_' s3) s3 of
             Inl e \<Rightarrow> Inl e
           | Inr s4 \<Rightarrow>
               (case GurobiDense_updateConstr (ineqconstr_' s4) (ineqvars_' s4) Aineq Bineq
                       (nrineq_' s4) s4 of
                  Inl e \<Rightarrow> Inl e
                | Inr s5 \<Rightarrow> Inr (optimize_and_fetch slv s5)))"


section \<open>GurobiSparse\<close>

text \<open>
  \<open>updateConstr\<close> does nothing when \<open>len\<close> is 0. Otherwise, for every outer index
  \<open>k\<close> of \<open>A\<close>, it writes \<open>len\<close> zeros for the constraints and the \<open>len\<close> variables
  at offset \<open>len * k\<close> of the variable array, then the stored entries of that column,
  addressing the constraint array by the entry's row and \<open>vars_\<close> by its column; then it
  writes the stored entries of \<open>b\<close> as right-hand sides. All arrays are addressed through
  raw pointers; a call that would leave one of them is the result \<open>Inl OutOfBounds\<close>.
\<close>

definition GurobiSparse_updateConstr ::
  "GRBConstr list \<Rightarrow> GRBVar list \<Rightarrow> SparseMatrix \<Rightarrow> SparseVector \<Rightarrow> nat \<Rightarrow> GurobiCommon
     \<Rightarrow> error + GurobiCommon" where
  "GurobiSparse_updateConstr constrs vars A b len s =
     (if len > 0 then
        if (outerSize A > 0 \<and> (length constrs < len \<or> length vars < len * outerSize A))
           \<or> list_ex (\<lambda>(r, c, a). length constrs \<le> r \<or> length (vars_' s) \<le> c) (sm_triples A)
           \<or> list_ex (\<lambda>(i, a). length constrs \<le> i) (sv_entries b)
        then Inl OutOfBounds
        else
          let s1 = s\<lparr>model_' :=
                      foldl (\<lambda>m k.
                               foldl (\<lambda>m' (r, a). chgCoeff (constrs ! r) (vars_' s ! k) a m')
                                 (chgCoeffs constrs (drop (len * k) vars) (replicate len 0) len m)
                                 (sm_outer A ! k))
                        (model_' s) [0..<outerSize A]\<rparr>
          in Inr (s1\<lparr>model_' := foldl (\<lambda>m (i, a). set_RHS (constrs ! i) a m) (model_' s1)
                                    (sv_entries b)\<rparr>)
      else Inr s)"

definition GurobiSparse_solve ::
  "solver \<Rightarrow> SparseMatrix \<Rightarrow> SparseVector \<Rightarrow> SparseMatrix \<Rightarrow> SparseVector \<Rightarrow> SparseMatrix
     \<Rightarrow> SparseVector \<Rightarrow> VectorXd \<Rightarrow> VectorXd \<Rightarrow> GurobiCommon \<Rightarrow> error + bool \<times> GurobiCommon" where
  "GurobiSparse_solve slv Q C Aeq Beq Aineq Bineq XL XU s0 =
     (if list_ex (\<lambda>(r, c, a). length (vars_' s0) \<le> r \<or> length (vars_' s0) \<le> c) (sm_triples Q)
         \<or> list_ex (\<lambda>(i, a). length (vars_' s0) \<le> i) (sv_entries C)
         \<or> length (vars_' s0) < nrvar_' s0
         \<or> length XL < nrvar_' s0 \<or> length XU < nrvar_' s0
      then Inl OutOfBounds
      else
        let quad = map (\<lambda>(r, c, a). (0.5 * a, vars_' s0 ! r, vars_' s0 ! c)) (sm_triples Q);
            lin = map (\<lambda>(i, a). (a, vars_' s0 ! i)) (sv_entries C);
            s1 = s0\<lparr>model_' := setObjective \<lparr>qe_quad = quad, qe_lin = lin\<rparr> (model_' s0)\<rparr>;
            s2 = s1\<lparr>model_' := set_array set_LB (vars_' s1) XL (nrvar_' s1) (model_' s1)\<rparr>;
            s3 = s2\<lparr>model_' := set_array set_UB (vars_' s2) XU (nrvar_' s2) (model_' s2)\<rparr>
        in case GurobiSparse_updateConstr (eqconstr_' s3) (eqvars_' s3) Aeq Beq (nreq_' s3) s3 of
             Inl e \<Rightarrow> Inl e
           | Inr s4 \<Rightarrow>
               (case GurobiSparse_updateConstr (ineqconstr_' s4) (ineqvars_' s4) Aineq Bineq
                       (nrineq_' s4) s4 of
                  Inl e \<Rightarrow> Inl e
                | Inr s5 \<Rightarrow> Inr (optimize_and_fetch slv s5)))"


section \<open>Sequences of calls\<close>

text \<open>
  The state-changing public methods of an adapter object, and the effect of a sequence
  of calls on it. A call that ends in an error ends the sequence. The boolean returned
  by each \<open>solve\<close> is collected, in call order.
\<close>

datatype call =
    Problem nat nat nat
  | DenseSolve MatrixXd VectorXd MatrixXd VectorXd MatrixXd VectorXd VectorXd VectorXd
  | SparseSolve SparseMatrix SparseVector SparseMatrix SparseVector SparseMatrix SparseVector
      VectorXd VectorXd
  | WarmStart WarmStatus
  | DisplayOutput bool
  | FeasibilityTolerance real
  | OptimalityTolerance real
  | SetVariableType nat char

fun is_problem :: "call \<Rightarrow> bool" where
  "is_problem (Problem n e i) = True"
| "is_problem _ = False"

fun exec :: "solver \<Rightarrow> call \<Rightarrow> GurobiCommon \<Rightarrow> error + bool list \<times> GurobiCommon" where
  "exec slv (Problem n e i) s = Inr ([], problem n e i s)"
| "exec slv (DenseSolve Q C Aeq Beq Aineq Bineq XL XU) s =
     (case GurobiDense_solve slv Q C Aeq Beq Aineq Bineq XL XU s of
        Inl err \<Rightarrow> Inl err | Inr (b, s') \<Rightarrow> Inr ([b], s'))"
| "exec slv (SparseSolve Q C Aeq Beq Aineq Bineq XL XU) s =
     (case GurobiSparse_solve slv Q C Aeq Beq Aineq Bineq XL XU s of
        Inl err \<Rightarrow> Inl err | Inr (b, s') \<Rightarrow> Inr ([b], s'))"
| "exec slv (WarmStart ws) s = Inr ([], warmStart_set ws s)"
| "exec slv (DisplayOutput d) s = Inr ([], displayOutput d s)"
| "exec slv (FeasibilityTolerance tol) s =
     (case feasibilityTolerance_set tol s of Inl err \<Rightarrow> Inl err | Inr s' \<Rightarrow> Inr ([], s'))"
| "exec slv (OptimalityTolerance tol) s =
     (case optimalityTolerance_set tol s of Inl err \<Rightarrow> Inl err | Inr s' \<Rightarrow> Inr ([], s'))"
| "exec slv (SetVariableType i t) s =
     (case setVariableType i t s of Inl err \<Rightarrow> Inl err | Inr s' \<Rightarrow> Inr ([], s'))"

fun run :: "solver \<Rightarrow> call list \<Rightarrow> GurobiCommon \<Rightarrow> error + bool list \<times> GurobiCommon" where
  "run slv [] s = Inr ([], s)"
| "run slv (c # cs) s =
     (case exec slv c s of
        Inl err \<Rightarrow> Inl err
      | Inr (bs, s') \<Rightarrow>
          (case run slv cs s' of
             Inl err \<Rightarrow> Inl err
           | Inr (bs', s'') \<Rightarrow> Inr (bs @ bs', s'')))"

text \<open>The handle structure of a model: its variables and constraints in order, and
  the two counters.\<close>

definition handles :: "GRBModel \<Rightarrow> GRBVar list \<times> GRBConstr list \<times> nat \<times> nat" where
  "handles m = (var_handles m, constr_handles m, m_nextvar m, m_nextconstr m)"

text \<open>
  The states an adapter object can be in: the model holds exactly the variables of
  \<open>vars_\<close> and the constraints of \<open>eqconstr_\<close> followed by those of \<open>ineqconstr_\<close>,
  the arrays have the stored counts as their lengths, and every handle has been drawn
  from the model's counters.
\<close>

definition well_formed :: "GurobiCommon \<Rightarrow> bool" where
  "well_formed s \<longleftrightarrow>
     var_handles (model_' s) = vars_' s
     \<and> constr_handles (model_' s) = eqconstr_' s @ ineqconstr_' s
     \<and> length (vars_' s) = nrvar_' s
     \<and> length (eqconstr_' s) = nreq_' s
     \<and> length (ineqconstr_' s) = nrineq_' s
     \<and> list_all (\<lambda>v. v < m_nextvar (model_' s)) (vars_' s)
     \<and> list_all (\<lambda>c. c < m_nextconstr (model_' s)) (eqconstr_' s @ ineqconstr_' s)"


section \<open>The status enumeration\<close>

text \<open>The status codes that the \<open>switch\<close> of \<open>statusDescription\<close> has a case for, in
  the order of the cases.\<close>

definition described_statuses :: "int list" where
  "described_statuses =
     [GRB_LOADED, GRB_OPTIMAL, GRB_INFEASIBLE, GRB_INF_OR_UNBD, GRB_UNBOUNDED, GRB_CUTOFF,
      GRB_ITERATION_LIMIT, GRB_NODE_LIMIT, GRB_TIME_LIMIT, GRB_SOLUTION_LIMIT,
      GRB_INTERRUPTED, GRB_NUMERIC, GRB_SUBOPTIMAL, GRB_INPROGRESS, GRB_USER_OBJ_LIMIT]"

text \<open>The enumeration as the specification words it: optimal, suboptimal, infeasible,
  unbounded, iteration/time/node/solution limit reached, interrupted, numeric
  difficulty, in-progress, user objective limit.\<close>

definition spec_status_enumeration :: "int list" where
  "spec_status_enumeration =
     [GRB_OPTIMAL, GRB_SUBOPTIMAL, GRB_INFEASIBLE, GRB_UNBOUNDED,
      GRB_ITERATION_LIMIT, GRB_TIME_LIMIT, GRB_NODE_LIMIT, GRB_SOLUTION_LIMIT,
      GRB_INTERRUPTED, GRB_NUMERIC, GRB_INPROGRESS, GRB_USER_OBJ_LIMIT]"


section \<open>Result retrieval\<close>

lemmas GRB_status_defs =
  GRB_LOADED_def GRB_OPTIMAL_def GRB_INFEASIBLE_def GRB_INF_OR_UNBD_def GRB_UNBOUNDED_def
  GRB_CUTOFF_def GRB_ITERATION_LIMIT_def GRB_NODE_LIMIT_def GRB_TIME_LIMIT_def
  GRB_SOLUTION_LIMIT_def GRB_INTERRUPTED_def GRB_NUMERIC_def GRB_SUBOPTIMAL_def
  GRB_INPROGRESS_def GRB_USER_OBJ_LIMIT_def

text \<open>
  Claim C1. In every adapter state, each of \<open>result()\<close>, \<open>dual_eq()\<close> and
  \<open>dual_ineq()\<close> throws its string literal if and only if the stored status is neither
  \<open>GRB_OPTIMAL\<close> nor \<open>GRB_SUBOPTIMAL\<close>; when the status is one of the two, each returns
  the stored vector \<open>X_\<close>, \<open>Yeq_\<close>, \<open>Yineq_\<close>.
\<close>

theorem retrieval_throws_iff_unsuccessful:
  "(success s \<longleftrightarrow> status_' s = GRB_OPTIMAL \<or> status_' s = GRB_SUBOPTIMAL)
   \<and> ((\<exists>msg. result s = Inl msg) \<longleftrightarrow> \<not> success s)
   \<and> ((\<exists>msg. dual_eq s = Inl msg) \<longleftrightarrow> \<not> success s)
   \<and> ((\<exists>msg. dual_ineq s = Inl msg) \<longleftrightarrow> \<not> success s)
   \<and> (\<not> success s \<longrightarrow>
        result s = Inl ''solve unsuccessful; unable to retrieve result''
        \<and> dual_eq s = Inl ''solve unsuccessful; unable to retrieve dual_eq''
        \<and> dual_ineq s = Inl ''solve unsuccessful; unable to retrieve dual_ineq'')
   \<and> (success s \<longrightarrow>
        result s = Inr (X_' s) \<and> dual_eq s = Inr (Yeq_' s) \<and> dual_ineq s = Inr (Yineq_' s))"
  by (simp add: success_def result_def dual_eq_def dual_ineq_def)

theorem retrieval_throws_iff_unsuccessful_witness:
  "success (GurobiCommon_new\<lparr>X_' := [1, 2], status_' := GRB_SUBOPTIMAL\<rparr>)
   \<and> result (GurobiCommon_new\<lparr>X_' := [1, 2], status_' := GRB_SUBOPTIMAL\<rparr>) = Inr [1, 2]
   \<and> \<not> success (GurobiCommon_new\<lparr>status_' := GRB_INFEASIBLE\<rparr>)
   \<and> dual_eq (GurobiCommon_new\<lparr>status_' := GRB_INFEASIBLE\<rparr>)
       = Inl ''solve unsuccessful; unable to retrieve dual_eq''"
  using retrieval_throws_iff_unsuccessful
          [of "GurobiCommon_new\<lparr>X_' := [1, 2], status_' := GRB_SUBOPTIMAL\<rparr>"]
        retrieval_throws_iff_unsuccessful
          [of "GurobiCommon_new\<lparr>status_' := GRB_INFEASIBLE\<rparr>"]
  by (simp add: GRB_status_defs)


section \<open>Status descriptions\<close>

lemma statusDescription_default_iff:
  "statusDescription s = not_run_message \<longleftrightarrow> status_' s \<notin> set described_statuses"
  by (simp add: statusDescription_def not_run_message_def described_statuses_def)

text \<open>Length and eighth character tell the fifteen descriptions apart.\<close>

lemma statusDescription_fingerprint:
  "status_' s \<in> set described_statuses \<Longrightarrow>
   (length (statusDescription s), statusDescription s ! 7) =
     (if status_' s = GRB_LOADED then (58, CHR ''s'') else
      if status_' s = GRB_OPTIMAL then (93, CHR ''a'') else
      if status_' s = GRB_INFEASIBLE then (34, CHR ''a'') else
      if status_' s = GRB_INF_OR_UNBD then (148, CHR ''a'') else
      if status_' s = GRB_UNBOUNDED then (325, CHR ''a'') else
      if status_' s = GRB_CUTOFF then (138, CHR '' '') else
      if status_' s = GRB_ITERATION_LIMIT then (252, CHR ''a'') else
      if status_' s = GRB_NODE_LIMIT then (138, CHR ''a'') else
      if status_' s = GRB_TIME_LIMIT then (106, CHR ''a'') else
      if status_' s = GRB_SOLUTION_LIMIT then (121, CHR ''a'') else
      if status_' s = GRB_INTERRUPTED then (40, CHR ''a'') else
      if status_' s = GRB_NUMERIC then (72, CHR ''a'') else
      if status_' s = GRB_SUBOPTIMAL then (77, CHR ''t'') else
      if status_' s = GRB_INPROGRESS then (100, CHR ''c'') else (124, CHR ''e''))"
  by (auto simp add: statusDescription_def described_statuses_def GRB_status_defs)

lemma statusDescription_inj:
  assumes "status_' s \<in> set described_statuses" "status_' t \<in> set described_statuses"
    and eq: "statusDescription s = statusDescription t"
  shows "status_' s = status_' t"
proof -
  have "(length (statusDescription s), statusDescription s ! 7)
        = (length (statusDescription t), statusDescription t ! 7)"
    using eq by simp
  then show ?thesis
    using assms(1,2)
    unfolding statusDescription_fingerprint [OF assms(1)] statusDescription_fingerprint [OF assms(2)]
    by (auto simp add: described_statuses_def GRB_status_defs split: if_splits)
qed

text \<open>
  Claim C3, as the specification states it, fails: the enumeration the specification
  lists is not the set of statuses with a description of their own. A status outside
  that list (infeasible-or-unbounded, which the solver does report) has its own
  description, not the default message.
\<close>

theorem statusDescription_spec_enumeration_counterexample:
  "GRB_INF_OR_UNBD \<notin> set spec_status_enumeration
   \<and> statusDescription (GurobiCommon_new\<lparr>status_' := GRB_INF_OR_UNBD\<rparr>) \<noteq> not_run_message"
  by (simp add: spec_status_enumeration_def statusDescription_def not_run_message_def GRB_status_defs)

text \<open>
  Claim C3, amended. \<open>statusDescription()\<close> returns a description of its own
  (different from the default message and from the description of every other status)
  for each of the fifteen status codes its \<open>switch\<close> lists, which are the twelve of the
  specification's enumeration together with loaded, infeasible-or-unbounded and cutoff;
  for every other status code it returns the default not-yet-run message.
\<close>

theorem statusDescription_enumeration:
  "(statusDescription s \<noteq> not_run_message \<longleftrightarrow> status_' s \<in> set described_statuses)
   \<and> (status_' s \<in> set described_statuses \<and> status_' t \<in> set described_statuses
        \<and> statusDescription s = statusDescription t \<longrightarrow> status_' s = status_' t)
   \<and> set described_statuses
        = set spec_status_enumeration \<union> {GRB_LOADED, GRB_INF_OR_UNBD, GRB_CUTOFF}"
  using statusDescription_default_iff statusDescription_inj 
  by (auto simp add: described_statuses_def spec_status_enumeration_def)

theorem statusDescription_enumeration_witness:
  "statusDescription (GurobiCommon_new\<lparr>status_' := GRB_CUTOFF\<rparr>) \<noteq> not_run_message
   \<and> GRB_CUTOFF \<in> set described_statuses
   \<and> statusDescription GurobiCommon_new = not_run_message
   \<and> status_' GurobiCommon_new \<notin> set described_statuses"
proof -
  have a: "GRB_CUTOFF \<in> set described_statuses"
    by (simp add: described_statuses_def)
  have b: "status_' GurobiCommon_new \<notin> set described_statuses"
    by (simp add: described_statuses_def GurobiCommon_new_def GRB_status_defs)
  have "statusDescription (GurobiCommon_new\<lparr>status_' := GRB_CUTOFF\<rparr>) \<noteq> not_run_message"
    using statusDescription_enumeration
            [of "GurobiCommon_new\<lparr>status_' := GRB_CUTOFF\<rparr>" GurobiCommon_new] a
    by simp
  moreover have "statusDescription GurobiCommon_new = not_run_message"
    using statusDescription_enumeration [of GurobiCommon_new GurobiCommon_new] b
    by blast
  ultimately show ?thesis
    using a b by simp
qed


section \<open>Parameters\<close>

text \<open>
  Claim C8. The parameter setters and getters round-trip: for every \<open>tol\<close> with
  \<open>1e-9 \<le> tol \<le> 1e-2\<close>, \<open>feasibilityTolerance(tol)\<close> followed by
  \<open>feasibilityTolerance()\<close> returns \<open>tol\<close>, likewise for \<open>optimalityTolerance\<close>; and
  for every warm status \<open>ws\<close>, \<open>warmStart(ws)\<close> followed by \<open>warmStart()\<close> returns
  \<open>ws\<close>.
\<close>

theorem tolerance_and_warmStart_round_trip:
  "(1 / 10 ^ 9 \<le> tol \<and> tol \<le> 1 / 10 ^ 2 \<longrightarrow>
      (\<exists>s'. feasibilityTolerance_set tol s = Inr s' \<and> feasibilityTolerance s' = tol)
      \<and> (\<exists>s'. optimalityTolerance_set tol s = Inr s' \<and> optimalityTolerance s' = tol))
   \<and> warmStart (warmStart_set ws s) = ws"
  by (simp add: feasibilityTolerance_set_def feasibilityTolerance_def
        optimalityTolerance_set_def optimalityTolerance_def warmStart_def warmStart_set_def)

theorem tolerance_and_warmStart_round_trip_witness:
  "(1 / 10 ^ 9 \<le> (1 / 10 ^ 4 :: real) \<and> (1 / 10 ^ 4 :: real) \<le> 1 / 10 ^ 2)
   \<and> (\<exists>s'. feasibilityTolerance_set (1 / 10 ^ 4) GurobiCommon_new = Inr s'
           \<and> feasibilityTolerance s' = 1 / 10 ^ 4)
   \<and> (\<exists>s'. optimalityTolerance_set (1 / 10 ^ 4) GurobiCommon_new = Inr s'
           \<and> optimalityTolerance s' = 1 / 10 ^ 4)
   \<and> warmStart (warmStart_set (WarmStatus 1) GurobiCommon_new) = WarmStatus 1"
  using tolerance_and_warmStart_round_trip [of "1 / 10 ^ 4" GurobiCommon_new "WarmStatus 1"]
  by simp

text \<open>
  Claim C10. Both tolerance setters assert \<open>1e-2 >= tol && tol >= 1e-9\<close>: for
  every \<open>tol\<close> in that closed interval the assertion holds and the parameter is set to
  \<open>tol\<close>; for every \<open>tol\<close> outside it the assertion fails.
\<close>

theorem tolerance_assertion:
  "(1 / 10 ^ 2 \<ge> tol \<and> tol \<ge> 1 / 10 ^ 9 \<longrightarrow>
      feasibilityTolerance_set tol s
        = Inr (s\<lparr>model_' := (model_' s)\<lparr>DoubleParam_FeasibilityTol := tol\<rparr>\<rparr>)
      \<and> optimalityTolerance_set tol s
        = Inr (s\<lparr>model_' := (model_' s)\<lparr>DoubleParam_OptimalityTol := tol\<rparr>\<rparr>))
   \<and> (\<not> (1 / 10 ^ 2 \<ge> tol \<and> tol \<ge> 1 / 10 ^ 9) \<longrightarrow>
      feasibilityTolerance_set tol s = Inl (AssertionFailed ''1e-2 >= tol && tol >= 1e-9'')
      \<and> optimalityTolerance_set tol s = Inl (AssertionFailed ''1e-2 >= tol && tol >= 1e-9''))"
  by (simp add: feasibilityTolerance_set_def optimalityTolerance_set_def)

theorem tolerance_assertion_witness:
  "((1 / 10 ^ 2 :: real) \<ge> 1 / 10 ^ 6 \<and> (1 / 10 ^ 6 :: real) \<ge> 1 / 10 ^ 9)
   \<and> feasibilityTolerance_set (1 / 10 ^ 6) GurobiCommon_new
       = Inr (GurobiCommon_new\<lparr>model_' := new_model\<lparr>DoubleParam_FeasibilityTol := 1 / 10 ^ 6\<rparr>\<rparr>)
   \<and> \<not> ((1 / 10 ^ 2 :: real) \<ge> 1 / 10 \<and> (1 / 10 :: real) \<ge> 1 / 10 ^ 9)
   \<and> optimalityTolerance_set (1 / 10) GurobiCommon_new
       = Inl (AssertionFailed ''1e-2 >= tol && tol >= 1e-9'')"
  using tolerance_assertion [of "1 / 10 ^ 6" GurobiCommon_new]
        tolerance_assertion [of "1 / 10" GurobiCommon_new]
  by (simp add: GurobiCommon_new_def)


section \<open>Operations that keep the handle structure\<close>

lemma upd_attr_keys: "map fst (upd_attr f h xs) = map fst xs"
  by (induction xs) (auto simp add: upd_attr_def)

lemma handles_primitives:
  "handles (set_VType v t m) = handles m"
  "handles (set_LB v x m) = handles m"
  "handles (set_UB v x m) = handles m"
  "handles (set_Sense c t m) = handles m"
  "handles (set_RHS c x m) = handles m"
  "handles (chgCoeff c v a m) = handles m"
  "handles (setObjective ex m) = handles m"
  "handles (optimize slv m) = handles m"
  by (simp_all add: handles_def var_handles_def constr_handles_def set_VType_def set_LB_def
        set_UB_def set_Sense_def set_RHS_def chgCoeff_def setObjective_def optimize_def
        Let_def upd_attr_keys)

lemma foldl_handles:
  assumes "\<And>m x. handles (f m x) = handles m"
  shows "handles (foldl f m xs) = handles m"
  using assms by (induction xs arbitrary: m) simp_all

lemma handles_set_array:
  assumes "\<And>h x m. handles (f h x m) = handles m"
  shows "handles (set_array f hs xs n m) = handles m"
  unfolding set_array_def by (rule foldl_handles) (simp add: case_prod_unfold assms)

lemma handles_chgCoeffs: "handles (chgCoeffs cs vs as n m) = handles m"
  unfolding chgCoeffs_def
  by (rule foldl_handles) (simp add: case_prod_unfold handles_primitives)

lemma dense_updateConstr_frame:
  assumes "GurobiDense_updateConstr cs vs A b len s = Inr s'"
  shows "\<exists>m. s' = s\<lparr>model_' := m\<rparr> \<and> handles m = handles (model_' s)"
proof -
  have h: "handles (foldl (\<lambda>m i. chgCoeffs cs (drop (k * i) vs) (md_col A i) (md_rows A) m)
                     m0 xs) = handles m0" for k m0 xs
    by (rule foldl_handles) (rule handles_chgCoeffs)
  from assms have "s' = s\<lparr>model_' := model_' s'\<rparr> \<and> handles (model_' s') = handles (model_' s)"
    by (auto simp add: GurobiDense_updateConstr_def Let_def h handles_set_array
          handles_primitives split: if_splits)
  then show ?thesis by blast
qed

lemma sparse_updateConstr_frame:
  assumes "GurobiSparse_updateConstr cs vs A b len s = Inr s'"
  shows "\<exists>m. s' = s\<lparr>model_' := m\<rparr> \<and> handles m = handles (model_' s)"
proof -
  have inner: "handles (foldl (\<lambda>m' (r, a). chgCoeff (cs ! r) (vars_' s ! k) a m') m0 es)
                 = handles m0" for m0 k es
    by (rule foldl_handles) (simp add: case_prod_unfold handles_primitives)
  have h1: "handles (foldl (\<lambda>m k.
                       foldl (\<lambda>m' (r, a). chgCoeff (cs ! r) (vars_' s ! k) a m')
                         (chgCoeffs cs (drop (len * k) vs) (replicate len 0) len m)
                         (sm_outer A ! k))
                     m0 xs) = handles m0" for m0 xs
    by (rule foldl_handles) (simp add: inner handles_chgCoeffs)
  have h2: "handles (foldl (\<lambda>m (i, a). set_RHS (cs ! i) a m) m0 es) = handles m0" for m0 es
    by (rule foldl_handles) (simp add: case_prod_unfold handles_primitives)
  from assms have "s' = s\<lparr>model_' := model_' s'\<rparr> \<and> handles (model_' s') = handles (model_' s)"
    by (cases "len > 0")
       (auto simp add: GurobiSparse_updateConstr_def Let_def h1 h2 split: if_splits)
  then show ?thesis by blast
qed

lemma dense_solve_shape:
  assumes "GurobiDense_solve slv Q C Aeq Beq Aineq Bineq XL XU s = Inr r"
  shows "\<exists>m. handles m = handles (model_' s) \<and> r = optimize_and_fetch slv (s\<lparr>model_' := m\<rparr>)"
  using assms
  by (auto simp add: GurobiDense_solve_def Let_def handles_set_array handles_primitives
        split: if_splits sum.splits dest!: dense_updateConstr_frame)

lemma sparse_solve_shape:
  assumes "GurobiSparse_solve slv Q C Aeq Beq Aineq Bineq XL XU s = Inr r"
  shows "\<exists>m. handles m = handles (model_' s) \<and> r = optimize_and_fetch slv (s\<lparr>model_' := m\<rparr>)"
  using assms
  by (auto simp add: GurobiSparse_solve_def Let_def handles_set_array handles_primitives
        split: if_splits sum.splits dest!: sparse_updateConstr_frame)


section \<open>Configuring a problem\<close>

lemma foldl_remove_var:
  "m_vars (foldl remove_var m vs) = filter (\<lambda>(h, a). h \<notin> set vs) (m_vars m)
   \<and> m_constrs (foldl remove_var m vs) = m_constrs m
   \<and> m_nextvar (foldl remove_var m vs) = m_nextvar m
   \<and> m_nextconstr (foldl remove_var m vs) = m_nextconstr m"
proof (induction vs arbitrary: m)
  case Nil
  show ?case by simp
next
  case (Cons v vs)
  have "filter (\<lambda>(h, a). h \<notin> set vs) (filter (\<lambda>(h, a). h \<noteq> v) (m_vars m))
        = filter (\<lambda>(h, a). h \<notin> set (v # vs)) (m_vars m)"
    by (induction "m_vars m") (auto split: prod.splits intro: filter_cong)
  then show ?case
    using Cons.IH [of "remove_var m v"] by (simp add: remove_var_def)
qed

lemma foldl_remove_constr:
  "m_constrs (foldl remove_constr m cs) = filter (\<lambda>(h, a). h \<notin> set cs) (m_constrs m)
   \<and> m_vars (foldl remove_constr m cs) = m_vars m
   \<and> m_nextvar (foldl remove_constr m cs) = m_nextvar m
   \<and> m_nextconstr (foldl remove_constr m cs) = m_nextconstr m"
proof (induction cs arbitrary: m)
  case Nil
  show ?case by simp
next
  case (Cons c cs)
  have "filter (\<lambda>(h, a). h \<notin> set cs) (filter (\<lambda>(h, a). h \<noteq> c) (m_constrs m))
        = filter (\<lambda>(h, a). h \<notin> set (c # cs)) (m_constrs m)"
    by (auto split: prod.splits intro: filter_cong)
  then show ?case
    using Cons.IH [of "remove_constr m c"] by (simp add: remove_constr_def)
qed

lemma set_Sense_fields:
  "m_constrs (set_Sense h t m)
     = map (\<lambda>(c, a). if c = h then (c, a\<lparr>Sense := t\<rparr>) else (c, a)) (m_constrs m)
   \<and> m_vars (set_Sense h t m) = m_vars m
   \<and> m_nextvar (set_Sense h t m) = m_nextvar m
   \<and> m_nextconstr (set_Sense h t m) = m_nextconstr m"
  by (simp add: set_Sense_def upd_attr_def)

lemma foldl_set_Sense:
  "m_constrs (foldl (\<lambda>m' (h, x). set_Sense h x m') m (zip hs (replicate k t)))
     = map (\<lambda>(c, a). if c \<in> set (take k hs) then (c, a\<lparr>Sense := t\<rparr>) else (c, a)) (m_constrs m)
   \<and> m_vars (foldl (\<lambda>m' (h, x). set_Sense h x m') m (zip hs (replicate k t))) = m_vars m
   \<and> m_nextvar (foldl (\<lambda>m' (h, x). set_Sense h x m') m (zip hs (replicate k t))) = m_nextvar m
   \<and> m_nextconstr (foldl (\<lambda>m' (h, x). set_Sense h x m') m (zip hs (replicate k t)))
       = m_nextconstr m"
proof (induction hs arbitrary: m k)
  case Nil
  show ?case by (simp add: case_prod_unfold)
next
  case (Cons h hs)
  show ?case
  proof (cases k)
    case 0
    then show ?thesis by (simp add: case_prod_unfold)
  next
    case (Suc j)
    have comp: "map (\<lambda>(c, a). if c \<in> set (take j hs) then (c, a\<lparr>Sense := t\<rparr>) else (c, a))
                 (map (\<lambda>(c, a). if c = h then (c, a\<lparr>Sense := t\<rparr>) else (c, a)) xs)
               = map (\<lambda>(c, a). if c \<in> set (take (Suc j) (h # hs)) then (c, a\<lparr>Sense := t\<rparr>)
                                else (c, a)) xs" for xs
      by (induction xs) auto
    show ?thesis
      using Cons.IH [of "set_Sense h t m" j] set_Sense_fields [of h t m] comp [of "m_constrs m"]
      by (simp add: Suc)
  qed
qed


lemma set_array_set_Sense:
  "m_constrs (set_array set_Sense hs (replicate k t) k m)
     = map (\<lambda>(c, a). if c \<in> set (take k hs) then (c, a\<lparr>Sense := t\<rparr>) else (c, a)) (m_constrs m)
   \<and> m_vars (set_array set_Sense hs (replicate k t) k m) = m_vars m
   \<and> m_nextvar (set_array set_Sense hs (replicate k t) k m) = m_nextvar m
   \<and> m_nextconstr (set_array set_Sense hs (replicate k t) k m) = m_nextconstr m"
  using foldl_set_Sense [of m "take k hs" k t] by (simp add: set_array_def)

lemma problem_fields:
  "nrvar_' (problem n e i s) = n \<and> nreq_' (problem n e i s) = e \<and> nrineq_' (problem n e i s) = i
   \<and> vars_' (problem n e i s) = [m_nextvar (model_' s) ..< m_nextvar (model_' s) + n]
   \<and> eqconstr_' (problem n e i s)
       = [m_nextconstr (model_' s) ..< m_nextconstr (model_' s) + e]
   \<and> ineqconstr_' (problem n e i s)
       = [m_nextconstr (model_' s) + e ..< m_nextconstr (model_' s) + e + i]
   \<and> Q_' (problem n e i s) = resize_mat n n (Q_' s)
   \<and> C_' (problem n e i s) = resize_vec n (C_' s)
   \<and> Beq_' (problem n e i s) = resize_vec e (Beq_' s)
   \<and> Bineq_' (problem n e i s) = resize_vec i (Bineq_' s)
   \<and> X_' (problem n e i s) = resize_vec n (X_' s)
   \<and> Yeq_' (problem n e i s) = resize_vec e (Yeq_' s)
   \<and> Yineq_' (problem n e i s) = resize_vec i (Yineq_' s)
   \<and> status_' (problem n e i s) = status_' s
   \<and> iter_' (problem n e i s) = iter_' s"
  by (simp add: problem_def Let_def addVars_def addConstrs_def
        foldl_remove_var foldl_remove_constr set_array_set_Sense)

lemma problem_model:
  "m_nextvar (model_' (problem n e i s)) = m_nextvar (model_' s) + n
   \<and> m_nextconstr (model_' (problem n e i s)) = m_nextconstr (model_' s) + e + i
   \<and> m_vars (model_' (problem n e i s))
       = filter (\<lambda>(h, a). h \<notin> set (take (nrvar_' s) (vars_' s))) (m_vars (model_' s))
         @ map (\<lambda>h. (h, \<lparr>VType = GRB_CONTINUOUS, LB = 0, UB = GRB_INFINITY\<rparr>))
             [m_nextvar (model_' s) ..< m_nextvar (model_' s) + n]"
  by (simp add: problem_def Let_def addVars_def addConstrs_def
        foldl_remove_var foldl_remove_constr set_array_set_Sense)

lemma problem_model_constrs:
  "m_constrs (model_' (problem n e i s))
     = map (\<lambda>(c, a). if c \<in> set [m_nextconstr (model_' s) + e ..< m_nextconstr (model_' s) + e + i]
                      then (c, a\<lparr>Sense := CHR ''<''\<rparr>) else (c, a))
         (map (\<lambda>(c, a). if c \<in> set [m_nextconstr (model_' s) ..< m_nextconstr (model_' s) + e]
                         then (c, a\<lparr>Sense := CHR ''=''\<rparr>) else (c, a))
            (filter (\<lambda>(h, a). h \<notin> set (take (nreq_' s) (eqconstr_' s))
                               \<and> h \<notin> set (take (nrineq_' s) (ineqconstr_' s)))
               (m_constrs (model_' s))
             @ map (\<lambda>h. (h, \<lparr>Sense = GRB_LESS_EQUAL, RHS = 0\<rparr>))
                 [m_nextconstr (model_' s) ..< m_nextconstr (model_' s) + e])
          @ map (\<lambda>h. (h, \<lparr>Sense = GRB_LESS_EQUAL, RHS = 0\<rparr>))
              [m_nextconstr (model_' s) + e ..< m_nextconstr (model_' s) + e + i])"
  by (simp add: problem_def Let_def addVars_def addConstrs_def
        foldl_remove_var foldl_remove_constr set_array_set_Sense)
     (simp add: case_prod_unfold)



lemma problem_arrays:
  "lvars_' (problem n e i s)
     = map (\<lambda>k. [m_nextvar (model_' s) ..< m_nextvar (model_' s) + n] ! (k div n)) [0..<n * n]
   \<and> rvars_' (problem n e i s)
     = map (\<lambda>k. [m_nextvar (model_' s) ..< m_nextvar (model_' s) + n] ! (k mod n)) [0..<n * n]
   \<and> eqvars_' (problem n e i s)
     = concat (map (\<lambda>k. replicate e ([m_nextvar (model_' s) ..< m_nextvar (model_' s) + n] ! k))
                 [0..<n])
   \<and> ineqvars_' (problem n e i s)
     = concat (map (\<lambda>k. replicate i ([m_nextvar (model_' s) ..< m_nextvar (model_' s) + n] ! k))
                 [0..<n])"
  by (simp add: problem_def Let_def addVars_def addConstrs_def resize_mat_def md_size_def
        foldl_remove_var foldl_remove_constr set_array_set_Sense)

lemma optimize_and_fetch_eq:
  "optimize_and_fetch slv (s\<lparr>model_' := m\<rparr>) = (b, s') \<Longrightarrow>
   model_' s' = optimize slv m
   \<and> status_' s' = sol_status (slv m)
   \<and> iter_' s' = sol_iter (slv m)
   \<and> (b \<longleftrightarrow> sol_status (slv m) = GRB_OPTIMAL \<or> sol_status (slv m) = GRB_SUBOPTIMAL)
   \<and> (b \<longleftrightarrow> success s')
   \<and> (b \<longrightarrow> X_' s' = map (sol_x (slv m)) (take (nrvar_' s) (vars_' s))
            \<and> Yeq_' s' = map (sol_pi (slv m)) (take (nreq_' s) (eqconstr_' s))
            \<and> Yineq_' s' = map (sol_pi (slv m)) (take (nrineq_' s) (ineqconstr_' s)))
   \<and> (\<not> b \<longrightarrow> X_' s' = X_' s \<and> Yeq_' s' = Yeq_' s \<and> Yineq_' s' = Yineq_' s)
   \<and> nrvar_' s' = nrvar_' s \<and> nreq_' s' = nreq_' s \<and> nrineq_' s' = nrineq_' s
   \<and> vars_' s' = vars_' s \<and> eqconstr_' s' = eqconstr_' s \<and> ineqconstr_' s' = ineqconstr_' s
   \<and> eqvars_' s' = eqvars_' s \<and> ineqvars_' s' = ineqvars_' s
   \<and> lvars_' s' = lvars_' s \<and> rvars_' s' = rvars_' s
   \<and> Q_' s' = Q_' s \<and> C_' s' = C_' s \<and> Beq_' s' = Beq_' s \<and> Bineq_' s' = Bineq_' s"
  by (auto simp add: optimize_and_fetch_def Let_def success_def optimize_def get_X_def get_Pi_def
        split: if_splits)

lemma dense_updateConstr_returns:
  assumes "md_rows A = len" "length b = len" "0 < len \<longrightarrow> nrvar_' s \<le> md_cols A"
  shows "\<exists>s'. GurobiDense_updateConstr cs vs A b len s = Inr s'"
  using assms by (auto simp add: GurobiDense_updateConstr_def Let_def)

lemma dense_solve_returns:
  assumes "md_size Q \<le> length (rvars_' s)" "md_size Q \<le> length (lvars_' s)"
    and "nrvar_' s \<le> length C" "nrvar_' s \<le> length (vars_' s)"
    and "nrvar_' s \<le> length XL" "nrvar_' s \<le> length XU"
    and "md_rows Aeq = nreq_' s" "length Beq = nreq_' s"
    and "0 < nreq_' s \<longrightarrow> nrvar_' s \<le> md_cols Aeq"
    and "md_rows Aineq = nrineq_' s" "length Bineq = nrineq_' s"
    and "0 < nrineq_' s \<longrightarrow> nrvar_' s \<le> md_cols Aineq"
  shows "\<exists>b s'. GurobiDense_solve slv Q C Aeq Beq Aineq Bineq XL XU s = Inr (b, s')"
proof -
  let ?m3 = "set_array set_UB (vars_' s) XU (nrvar_' s)
               (set_array set_LB (vars_' s) XL (nrvar_' s)
                 (setObjective
                    \<lparr>qe_quad = map (\<lambda>(a, x, y). (0.5 * a, x, y))
                                 (zip (md_data Q) (zip (rvars_' s) (lvars_' s))),
                     qe_lin = zip (take (nrvar_' s) C) (take (nrvar_' s) (vars_' s))\<rparr>
                    (model_' s)))"
  from assms obtain s4 where
    u1: "GurobiDense_updateConstr (eqconstr_' s) (eqvars_' s) Aeq Beq (nreq_' s)
           (s\<lparr>model_' := ?m3\<rparr>) = Inr s4"
    using dense_updateConstr_returns
            [of Aeq "nreq_' s" Beq "s\<lparr>model_' := ?m3\<rparr>" "eqconstr_' s" "eqvars_' s"]
    by auto
  from dense_updateConstr_frame [OF u1] obtain m4 where s4: "s4 = s\<lparr>model_' := m4\<rparr>"
    by auto
  from assms s4 obtain s5 where
    u2: "GurobiDense_updateConstr (ineqconstr_' s4) (ineqvars_' s4) Aineq Bineq (nrineq_' s4) s4
           = Inr s5"
    using dense_updateConstr_returns
            [of Aineq "nrineq_' s4" Bineq s4 "ineqconstr_' s4" "ineqvars_' s4"]
    by auto
  from assms u1 u2 show ?thesis
    by (simp add: GurobiDense_solve_def Let_def prod_eq_iff)
qed



lemma sparse_updateConstr_returns:
  assumes "0 < len \<longrightarrow>
             (0 < outerSize A \<longrightarrow> len \<le> length cs \<and> len * outerSize A \<le> length vs)
             \<and> list_all (\<lambda>(r, c, a). r < length cs \<and> c < length (vars_' s)) (sm_triples A)
             \<and> list_all (\<lambda>(i, a). i < length cs) (sv_entries b)"
  shows "\<exists>s'. GurobiSparse_updateConstr cs vs A b len s = Inr s'"
  using assms
  by (auto simp add: GurobiSparse_updateConstr_def Let_def list_ex_iff list_all_iff)

lemma sparse_solve_returns:
  assumes "list_all (\<lambda>(r, c, a). r < length (vars_' s) \<and> c < length (vars_' s)) (sm_triples Q)"
    and "list_all (\<lambda>(i, a). i < length (vars_' s)) (sv_entries C)"
    and "nrvar_' s \<le> length (vars_' s)" "nrvar_' s \<le> length XL" "nrvar_' s \<le> length XU"
    and "0 < nreq_' s \<longrightarrow>
           (0 < outerSize Aeq \<longrightarrow> nreq_' s \<le> length (eqconstr_' s)
              \<and> nreq_' s * outerSize Aeq \<le> length (eqvars_' s))
           \<and> list_all (\<lambda>(r, c, a). r < length (eqconstr_' s) \<and> c < length (vars_' s))
                (sm_triples Aeq)
           \<and> list_all (\<lambda>(i, a). i < length (eqconstr_' s)) (sv_entries Beq)"
    and "0 < nrineq_' s \<longrightarrow>
           (0 < outerSize Aineq \<longrightarrow> nrineq_' s \<le> length (ineqconstr_' s)
              \<and> nrineq_' s * outerSize Aineq \<le> length (ineqvars_' s))
           \<and> list_all (\<lambda>(r, c, a). r < length (ineqconstr_' s) \<and> c < length (vars_' s))
                (sm_triples Aineq)
           \<and> list_all (\<lambda>(i, a). i < length (ineqconstr_' s)) (sv_entries Bineq)"
  shows "\<exists>b s'. GurobiSparse_solve slv Q C Aeq Beq Aineq Bineq XL XU s = Inr (b, s')"
proof -
  let ?m3 = "set_array set_UB (vars_' s) XU (nrvar_' s)
               (set_array set_LB (vars_' s) XL (nrvar_' s)
                 (setObjective
                    \<lparr>qe_quad = map (\<lambda>(r, c, a). (0.5 * a, vars_' s ! r, vars_' s ! c))
                                 (sm_triples Q),
                     qe_lin = map (\<lambda>(i, a). (a, vars_' s ! i)) (sv_entries C)\<rparr>
                    (model_' s)))"
  from assms(6) obtain s4 where
    u1: "GurobiSparse_updateConstr (eqconstr_' s) (eqvars_' s) Aeq Beq (nreq_' s)
           (s\<lparr>model_' := ?m3\<rparr>) = Inr s4"
    using sparse_updateConstr_returns
            [of "nreq_' s" Aeq "eqconstr_' s" "eqvars_' s" "s\<lparr>model_' := ?m3\<rparr>" Beq]
    by auto
  from sparse_updateConstr_frame [OF u1] obtain m4 where s4: "s4 = s\<lparr>model_' := m4\<rparr>"
    by auto
  from assms(7) s4 obtain s5 where
    u2: "GurobiSparse_updateConstr (ineqconstr_' s4) (ineqvars_' s4) Aineq Bineq (nrineq_' s4) s4
           = Inr s5"
    using sparse_updateConstr_returns
            [of "nrineq_' s4" Aineq "ineqconstr_' s4" "ineqvars_' s4" s4 Bineq]
    by auto
  from assms(1-5) u1 u2 show ?thesis
    by (auto simp add: GurobiSparse_solve_def Let_def list_ex_iff list_all_iff)
qed

lemma new_model_counters:
  "m_nextvar (model_' GurobiCommon_new) = 0 \<and> m_nextconstr (model_' GurobiCommon_new) = 0
   \<and> X_' GurobiCommon_new = [] \<and> Yeq_' GurobiCommon_new = [] \<and> Yineq_' GurobiCommon_new = []"
  by (simp add: GurobiCommon_new_def new_model_def)


section \<open>Solving\<close>

text \<open>
  Claim C2. For every call to \<open>GurobiDense::solve\<close> and \<open>GurobiSparse::solve\<close> that
  returns, the boolean returned is true if and only if the status the solver reports
  after \<open>optimize()\<close> is \<open>GRB_OPTIMAL\<close> or \<open>GRB_SUBOPTIMAL\<close>; when it is true,
  \<open>X_\<close>, \<open>Yeq_\<close> and \<open>Yineq_\<close> are the primal and dual values read from the optimized
  model for the adapter's handles; when it is false, the three vectors are unchanged.
\<close>

theorem solve_returns_success_and_copies:
  "(GurobiDense_solve slv Q C Aeq Beq Aineq Bineq XL XU s = Inr (b, s') \<longrightarrow>
      (\<exists>m. model_' s' = optimize slv m
        \<and> (b \<longleftrightarrow> IntAttr_Status (optimize slv m) = GRB_OPTIMAL
                  \<or> IntAttr_Status (optimize slv m) = GRB_SUBOPTIMAL)
        \<and> (b \<longrightarrow> X_' s' = get_X (optimize slv m) (vars_' s) (nrvar_' s)
                 \<and> Yeq_' s' = get_Pi (optimize slv m) (eqconstr_' s) (nreq_' s)
                 \<and> Yineq_' s' = get_Pi (optimize slv m) (ineqconstr_' s) (nrineq_' s))
        \<and> (\<not> b \<longrightarrow> X_' s' = X_' s \<and> Yeq_' s' = Yeq_' s \<and> Yineq_' s' = Yineq_' s)))
   \<and> (GurobiSparse_solve slv Qs Cs Aeqs Beqs Aineqs Bineqs XL XU s = Inr (b, s') \<longrightarrow>
      (\<exists>m. model_' s' = optimize slv m
        \<and> (b \<longleftrightarrow> IntAttr_Status (optimize slv m) = GRB_OPTIMAL
                  \<or> IntAttr_Status (optimize slv m) = GRB_SUBOPTIMAL)
        \<and> (b \<longrightarrow> X_' s' = get_X (optimize slv m) (vars_' s) (nrvar_' s)
                 \<and> Yeq_' s' = get_Pi (optimize slv m) (eqconstr_' s) (nreq_' s)
                 \<and> Yineq_' s' = get_Pi (optimize slv m) (ineqconstr_' s) (nrineq_' s))
        \<and> (\<not> b \<longrightarrow> X_' s' = X_' s \<and> Yeq_' s' = Yeq_' s \<and> Yineq_' s' = Yineq_' s)))"
proof (intro conjI impI)
  assume "GurobiDense_solve slv Q C Aeq Beq Aineq Bineq XL XU s = Inr (b, s')"
  from dense_solve_shape [OF this] obtain m where
    "optimize_and_fetch slv (s\<lparr>model_' := m\<rparr>) = (b, s')" by metis
  from optimize_and_fetch_eq [OF this]
  show "\<exists>m. model_' s' = optimize slv m
        \<and> (b \<longleftrightarrow> IntAttr_Status (optimize slv m) = GRB_OPTIMAL
                  \<or> IntAttr_Status (optimize slv m) = GRB_SUBOPTIMAL)
        \<and> (b \<longrightarrow> X_' s' = get_X (optimize slv m) (vars_' s) (nrvar_' s)
                 \<and> Yeq_' s' = get_Pi (optimize slv m) (eqconstr_' s) (nreq_' s)
                 \<and> Yineq_' s' = get_Pi (optimize slv m) (ineqconstr_' s) (nrineq_' s))
        \<and> (\<not> b \<longrightarrow> X_' s' = X_' s \<and> Yeq_' s' = Yeq_' s \<and> Yineq_' s' = Yineq_' s)"
    by (intro exI [of _ m]) (simp add: optimize_def get_X_def get_Pi_def Let_def)
next
  assume "GurobiSparse_solve slv Qs Cs Aeqs Beqs Aineqs Bineqs XL XU s = Inr (b, s')"
  from sparse_solve_shape [OF this] obtain m where
    "optimize_and_fetch slv (s\<lparr>model_' := m\<rparr>) = (b, s')" by metis
  from optimize_and_fetch_eq [OF this]
  show "\<exists>m. model_' s' = optimize slv m
        \<and> (b \<longleftrightarrow> IntAttr_Status (optimize slv m) = GRB_OPTIMAL
                  \<or> IntAttr_Status (optimize slv m) = GRB_SUBOPTIMAL)
        \<and> (b \<longrightarrow> X_' s' = get_X (optimize slv m) (vars_' s) (nrvar_' s)
                 \<and> Yeq_' s' = get_Pi (optimize slv m) (eqconstr_' s) (nreq_' s)
                 \<and> Yineq_' s' = get_Pi (optimize slv m) (ineqconstr_' s) (nrineq_' s))
        \<and> (\<not> b \<longrightarrow> X_' s' = X_' s \<and> Yeq_' s' = Yeq_' s \<and> Yineq_' s' = Yineq_' s)"
    by (intro exI [of _ m]) (simp add: optimize_def get_X_def get_Pi_def Let_def)
qed

theorem solve_returns_success_and_copies_witness:
  "(\<exists>b s'. GurobiDense_solve
             (\<lambda>m. \<lparr>sol_status = GRB_OPTIMAL, sol_iter = 4, sol_x = (\<lambda>v. 1), sol_pi = (\<lambda>c. 0)\<rparr>)
             \<lparr>md_rows = 1, md_cols = 1, md_coeff = (\<lambda>r c. 2)\<rparr> [0]
             \<lparr>md_rows = 1, md_cols = 1, md_coeff = (\<lambda>r c. 1)\<rparr> [1]
             \<lparr>md_rows = 1, md_cols = 1, md_coeff = (\<lambda>r c. 1)\<rparr> [5]
             [0] [10] (problem 1 1 1 GurobiCommon_new) = Inr (b, s')
           \<and> b \<and> X_' s' = [1] \<and> Yeq_' s' = [0] \<and> Yineq_' s' = [0])
   \<and> (\<exists>b s'. GurobiSparse_solve
             (\<lambda>m. \<lparr>sol_status = GRB_INFEASIBLE, sol_iter = 0, sol_x = (\<lambda>v. 1), sol_pi = (\<lambda>c. 0)\<rparr>)
             \<lparr>sm_rows = 1, sm_outer = [[(0, 2)]]\<rparr> \<lparr>sv_size = 1, sv_entries = []\<rparr>
             \<lparr>sm_rows = 1, sm_outer = [[(0, 1)]]\<rparr> \<lparr>sv_size = 1, sv_entries = [(0, 1)]\<rparr>
             \<lparr>sm_rows = 1, sm_outer = [[(0, 1)]]\<rparr> \<lparr>sv_size = 1, sv_entries = [(0, 5)]\<rparr>
             [0] [10] (problem 1 1 1 GurobiCommon_new) = Inr (b, s')
           \<and> \<not> b \<and> X_' s' = [0] \<and> Yeq_' s' = [0] \<and> Yineq_' s' = [0])"
proof (intro conjI)
  let ?s = "problem 1 1 1 GurobiCommon_new"
  let ?slv = "\<lambda>m::GRBModel. \<lparr>sol_status = GRB_OPTIMAL, sol_iter = 4, sol_x = (\<lambda>v. 1::real),
                              sol_pi = (\<lambda>c. 0::real)\<rparr>"
  let ?Q = "\<lparr>md_rows = 1, md_cols = 1, md_coeff = (\<lambda>r c. 2)\<rparr>"
  let ?A = "\<lparr>md_rows = 1, md_cols = 1, md_coeff = (\<lambda>r c. 1)\<rparr>"
  obtain b s' where r: "GurobiDense_solve ?slv ?Q [0] ?A [1] ?A [5] [0] [10] ?s = Inr (b, s')"
    using dense_solve_returns [of ?Q ?s "[0]" "[0]" "[10]" ?A "[1]" ?A "[5]" ?slv]
    by (auto simp add: problem_fields problem_arrays md_size_def)
  from solve_returns_success_and_copies
         [of ?slv ?Q "[0]" ?A "[1]" ?A "[5]" "[0]" "[10]" ?s b s'] r
  have "b \<and> X_' s' = [1] \<and> Yeq_' s' = [0] \<and> Yineq_' s' = [0]"
    by (auto simp add: optimize_def get_X_def get_Pi_def problem_fields new_model_counters)
  with r show "\<exists>b s'. GurobiDense_solve ?slv ?Q [0] ?A [1] ?A [5] [0] [10] ?s = Inr (b, s')
           \<and> b \<and> X_' s' = [1] \<and> Yeq_' s' = [0] \<and> Yineq_' s' = [0]"
    by blast
next
  let ?s = "problem 1 1 1 GurobiCommon_new"
  let ?slv = "\<lambda>m::GRBModel. \<lparr>sol_status = GRB_INFEASIBLE, sol_iter = 0, sol_x = (\<lambda>v. 1::real),
                              sol_pi = (\<lambda>c. 0::real)\<rparr>"
  let ?Q = "\<lparr>sm_rows = 1, sm_outer = [[(0, 2)]]\<rparr>"
  let ?C = "\<lparr>sv_size = 1, sv_entries = []\<rparr>"
  let ?A = "\<lparr>sm_rows = 1, sm_outer = [[(0, 1)]]\<rparr>"
  let ?b1 = "\<lparr>sv_size = 1, sv_entries = [(0, 1)]\<rparr>"
  let ?b5 = "\<lparr>sv_size = 1, sv_entries = [(0, 5)]\<rparr>"
  obtain b s' where r: "GurobiSparse_solve ?slv ?Q ?C ?A ?b1 ?A ?b5 [0] [10] ?s = Inr (b, s')"
    using sparse_solve_returns [of ?s ?Q ?C "[0]" "[10]" ?A ?b1 ?A ?b5 ?slv]
    by (auto simp add: problem_fields problem_arrays sm_triples_def outerSize_def)
  from solve_returns_success_and_copies
         [of ?slv _ _ _ _ _ _ "[0]" "[10]" ?s b s' ?Q ?C ?A ?b1 ?A ?b5, THEN conjunct2] r
  have "\<not> b \<and> X_' s' = [0] \<and> Yeq_' s' = [0] \<and> Yineq_' s' = [0]"
    by (auto simp add: optimize_def problem_fields new_model_counters resize_vec_def
          GRB_status_defs)
  with r show "\<exists>b s'. GurobiSparse_solve ?slv ?Q ?C ?A ?b1 ?A ?b5 [0] [10] ?s = Inr (b, s')
           \<and> \<not> b \<and> X_' s' = [0] \<and> Yeq_' s' = [0] \<and> Yineq_' s' = [0]"
    by blast
qed



section \<open>Well-formed states\<close>

lemma well_formed_cong:
  assumes "handles (model_' s') = handles (model_' s)"
    and "vars_' s' = vars_' s" "eqconstr_' s' = eqconstr_' s" "ineqconstr_' s' = ineqconstr_' s"
    and "nrvar_' s' = nrvar_' s" "nreq_' s' = nreq_' s" "nrineq_' s' = nrineq_' s"
  shows "well_formed s' \<longleftrightarrow> well_formed s"
  using assms by (simp add: well_formed_def handles_def)

lemma well_formed_new: "well_formed GurobiCommon_new"
  by (simp add: well_formed_def GurobiCommon_new_def new_model_def var_handles_def
        constr_handles_def)

lemma filter_keys_empty:
  assumes "set (map fst xs) \<subseteq> ks"
  shows "filter (\<lambda>(h, a). h \<notin> ks) xs = []"
  using assms by (induction xs) auto

lemma map_of_const:
  "map_of (map (\<lambda>h. (h, a)) hs) v = (if v \<in> set hs then Some a else None)"
  by (induction hs) auto

lemma problem_model_well_formed:
  assumes "well_formed s"
  shows "m_vars (model_' (problem n e i s))
           = map (\<lambda>h. (h, \<lparr>VType = GRB_CONTINUOUS, LB = 0, UB = GRB_INFINITY\<rparr>))
               [m_nextvar (model_' s) ..< m_nextvar (model_' s) + n]"
    and "m_constrs (model_' (problem n e i s))
           = map (\<lambda>h. (h, \<lparr>Sense = CHR ''='', RHS = 0\<rparr>))
               [m_nextconstr (model_' s) ..< m_nextconstr (model_' s) + e]
             @ map (\<lambda>h. (h, \<lparr>Sense = CHR ''<'', RHS = 0\<rparr>))
                 [m_nextconstr (model_' s) + e ..< m_nextconstr (model_' s) + e + i]"
proof -
  from assms have v: "set (map fst (m_vars (model_' s))) \<subseteq> set (take (nrvar_' s) (vars_' s))"
    by (simp add: well_formed_def var_handles_def)
  from assms have "set (map fst (m_constrs (model_' s)))
      \<subseteq> set (take (nreq_' s) (eqconstr_' s)) \<union> set (take (nrineq_' s) (ineqconstr_' s))"
    by (simp add: well_formed_def constr_handles_def)
  from filter_keys_empty [OF this]
  have c: "filter (\<lambda>(h, a). h \<notin> set (take (nreq_' s) (eqconstr_' s))
                               \<and> h \<notin> set (take (nrineq_' s) (ineqconstr_' s)))
             (m_constrs (model_' s)) = []"
    by simp
  show "m_vars (model_' (problem n e i s))
           = map (\<lambda>h. (h, \<lparr>VType = GRB_CONTINUOUS, LB = 0, UB = GRB_INFINITY\<rparr>))
               [m_nextvar (model_' s) ..< m_nextvar (model_' s) + n]"
    by (simp add: problem_model filter_keys_empty [OF v])
  show "m_constrs (model_' (problem n e i s))
           = map (\<lambda>h. (h, \<lparr>Sense = CHR ''='', RHS = 0\<rparr>))
               [m_nextconstr (model_' s) ..< m_nextconstr (model_' s) + e]
             @ map (\<lambda>h. (h, \<lparr>Sense = CHR ''<'', RHS = 0\<rparr>))
                 [m_nextconstr (model_' s) + e ..< m_nextconstr (model_' s) + e + i]"
    unfolding problem_model_constrs c by (simp add: GRB_LESS_EQUAL_def)
qed

lemma problem_counters:
  "m_nextvar (model_' (problem n e i s)) = m_nextvar (model_' s) + n"
  "m_nextconstr (model_' (problem n e i s)) = m_nextconstr (model_' s) + e + i"
  using problem_model [of n e i s] by simp_all

lemma well_formed_problem:
  assumes "well_formed s"
  shows "well_formed (problem n e i s)"
  by (auto simp add: well_formed_def var_handles_def constr_handles_def problem_fields
        problem_counters problem_model_well_formed [OF assms] comp_def list_all_iff)


text \<open>
  Claim C6. A call \<open>problem(nrvar, nreq, nrineq)\<close> on an adapter first removes the
  variable and constraint handles of the previous configuration from the model, then
  adds exactly \<open>nrvar\<close> continuous variables, \<open>nreq\<close> constraints whose sense is set
  to \<open>=\<close> and \<open>nrineq\<close> constraints whose sense is set to \<open><\<close>: afterwards none of
  the old handles is in the model, the model holds exactly the new handles, and the
  stored counts, \<open>Q_\<close>, \<open>C_\<close>, \<open>Beq_\<close>, \<open>Bineq_\<close>, \<open>X_\<close>, \<open>Yeq_\<close> and \<open>Yineq_\<close>
  have the new dimensions.
\<close>

theorem problem_reconfigures:
  assumes "well_formed s"
  shows "set (vars_' s) \<inter> set (var_handles (model_' (problem nrvar nreq nrineq s))) = {}
    \<and> set (eqconstr_' s @ ineqconstr_' s)
        \<inter> set (constr_handles (model_' (problem nrvar nreq nrineq s))) = {}
    \<and> var_handles (model_' (problem nrvar nreq nrineq s)) = vars_' (problem nrvar nreq nrineq s)
    \<and> length (vars_' (problem nrvar nreq nrineq s)) = nrvar
    \<and> distinct (vars_' (problem nrvar nreq nrineq s))
    \<and> (\<forall>v \<in> set (vars_' (problem nrvar nreq nrineq s)).
          map_option VType (var_attr (model_' (problem nrvar nreq nrineq s)) v)
            = Some GRB_CONTINUOUS)
    \<and> constr_handles (model_' (problem nrvar nreq nrineq s))
        = eqconstr_' (problem nrvar nreq nrineq s) @ ineqconstr_' (problem nrvar nreq nrineq s)
    \<and> length (eqconstr_' (problem nrvar nreq nrineq s)) = nreq
    \<and> length (ineqconstr_' (problem nrvar nreq nrineq s)) = nrineq
    \<and> distinct (eqconstr_' (problem nrvar nreq nrineq s)
                 @ ineqconstr_' (problem nrvar nreq nrineq s))
    \<and> (\<forall>c \<in> set (eqconstr_' (problem nrvar nreq nrineq s)).
          map_option Sense (constr_attr (model_' (problem nrvar nreq nrineq s)) c)
            = Some (CHR ''=''))
    \<and> (\<forall>c \<in> set (ineqconstr_' (problem nrvar nreq nrineq s)).
          map_option Sense (constr_attr (model_' (problem nrvar nreq nrineq s)) c)
            = Some (CHR ''<''))
    \<and> nrvar_' (problem nrvar nreq nrineq s) = nrvar
    \<and> nreq_' (problem nrvar nreq nrineq s) = nreq
    \<and> nrineq_' (problem nrvar nreq nrineq s) = nrineq
    \<and> md_rows (Q_' (problem nrvar nreq nrineq s)) = nrvar
    \<and> md_cols (Q_' (problem nrvar nreq nrineq s)) = nrvar
    \<and> length (C_' (problem nrvar nreq nrineq s)) = nrvar
    \<and> length (Beq_' (problem nrvar nreq nrineq s)) = nreq
    \<and> length (Bineq_' (problem nrvar nreq nrineq s)) = nrineq
    \<and> length (X_' (problem nrvar nreq nrineq s)) = nrvar
    \<and> length (Yeq_' (problem nrvar nreq nrineq s)) = nreq
    \<and> length (Yineq_' (problem nrvar nreq nrineq s)) = nrineq"
proof -
  let ?s' = "problem nrvar nreq nrineq s"
  note mv = problem_model_well_formed(1) [OF assms, of nrvar nreq nrineq]
  note mc = problem_model_well_formed(2) [OF assms, of nrvar nreq nrineq]
  from assms have old_v: "\<forall>v \<in> set (vars_' s). v < m_nextvar (model_' s)"
    and old_c: "\<forall>c \<in> set (eqconstr_' s @ ineqconstr_' s). c < m_nextconstr (model_' s)"
    by (simp_all add: well_formed_def list_all_iff)
  have vh: "var_handles (model_' ?s') = [m_nextvar (model_' s) ..< m_nextvar (model_' s) + nrvar]"
    by (simp add: var_handles_def mv comp_def)
  have ch: "constr_handles (model_' ?s')
              = [m_nextconstr (model_' s) ..< m_nextconstr (model_' s) + nreq]
                @ [m_nextconstr (model_' s) + nreq ..< m_nextconstr (model_' s) + nreq + nrineq]"
    by (simp add: constr_handles_def mc comp_def)
  have removed: "set (vars_' s) \<inter> set (var_handles (model_' ?s')) = {}
    \<and> set (eqconstr_' s @ ineqconstr_' s) \<inter> set (constr_handles (model_' ?s')) = {}"
    using old_v old_c unfolding vh ch by fastforce
  have vars: "var_handles (model_' ?s') = vars_' ?s' \<and> length (vars_' ?s') = nrvar
    \<and> distinct (vars_' ?s')
    \<and> (\<forall>v \<in> set (vars_' ?s').
          map_option VType (var_attr (model_' ?s') v) = Some GRB_CONTINUOUS)"
    by (simp add: vh problem_fields var_attr_def mv map_of_const)
  have constrs: "constr_handles (model_' ?s') = eqconstr_' ?s' @ ineqconstr_' ?s'
    \<and> length (eqconstr_' ?s') = nreq \<and> length (ineqconstr_' ?s') = nrineq
    \<and> distinct (eqconstr_' ?s' @ ineqconstr_' ?s')
    \<and> (\<forall>c \<in> set (eqconstr_' ?s').
          map_option Sense (constr_attr (model_' ?s') c) = Some (CHR ''=''))
    \<and> (\<forall>c \<in> set (ineqconstr_' ?s').
          map_option Sense (constr_attr (model_' ?s') c) = Some (CHR ''<''))"
    by (auto simp add: ch problem_fields constr_attr_def mc map_of_const map_add_def)
  have dims: "nrvar_' ?s' = nrvar \<and> nreq_' ?s' = nreq \<and> nrineq_' ?s' = nrineq
    \<and> md_rows (Q_' ?s') = nrvar \<and> md_cols (Q_' ?s') = nrvar
    \<and> length (C_' ?s') = nrvar \<and> length (Beq_' ?s') = nreq \<and> length (Bineq_' ?s') = nrineq
    \<and> length (X_' ?s') = nrvar \<and> length (Yeq_' ?s') = nreq \<and> length (Yineq_' ?s') = nrineq"
    by (simp add: problem_fields resize_mat_def resize_vec_def)
  from removed vars constrs dims show ?thesis by simp
qed


theorem problem_reconfigures_witness:
  "well_formed (problem 2 1 1 GurobiCommon_new)
   \<and> vars_' (problem 2 1 1 GurobiCommon_new) = [0, 1]
   \<and> var_handles (model_' (problem 1 2 0 (problem 2 1 1 GurobiCommon_new))) = [2]
   \<and> map_option VType (var_attr (model_' (problem 1 2 0 (problem 2 1 1 GurobiCommon_new))) 2)
       = Some (CHR ''C'')
   \<and> constr_handles (model_' (problem 1 2 0 (problem 2 1 1 GurobiCommon_new))) = [2, 3]
   \<and> map_option Sense (constr_attr (model_' (problem 1 2 0 (problem 2 1 1 GurobiCommon_new))) 3)
       = Some (CHR ''='')
   \<and> length (X_' (problem 1 2 0 (problem 2 1 1 GurobiCommon_new))) = 1
   \<and> length (Yeq_' (problem 1 2 0 (problem 2 1 1 GurobiCommon_new))) = 2"
proof -
  have wf: "well_formed (problem 2 1 1 GurobiCommon_new)"
    by (rule well_formed_problem [OF well_formed_new])
  have f: "vars_' (problem 1 2 0 (problem 2 1 1 GurobiCommon_new)) = [2]"
    "eqconstr_' (problem 1 2 0 (problem 2 1 1 GurobiCommon_new)) = [2, 3]"
    "ineqconstr_' (problem 1 2 0 (problem 2 1 1 GurobiCommon_new)) = []"
    "vars_' (problem 2 1 1 GurobiCommon_new) = [0, 1]"
    by (simp_all add: problem_fields problem_counters new_model_counters upt_rec)
  from problem_reconfigures [OF wf, of 1 2 0, unfolded f] wf f(4) show ?thesis
    by (simp add: GRB_CONTINUOUS_def)
qed


section \<open>Effects of calls\<close>

lemma solve_effect:
  assumes "GurobiDense_solve slv Q C Aeq Beq Aineq Bineq XL XU s = Inr (b, s')
           \<or> GurobiSparse_solve slv Qs Cs Aeqs Beqs Aineqs Bineqs XL XU s = Inr (b, s')"
  shows "handles (model_' s') = handles (model_' s)
   \<and> (b \<longleftrightarrow> success s')
   \<and> (b \<longrightarrow> length (X_' s') = min (nrvar_' s) (length (vars_' s))
            \<and> length (Yeq_' s') = min (nreq_' s) (length (eqconstr_' s))
            \<and> length (Yineq_' s') = min (nrineq_' s) (length (ineqconstr_' s)))
   \<and> (\<not> b \<longrightarrow> X_' s' = X_' s \<and> Yeq_' s' = Yeq_' s \<and> Yineq_' s' = Yineq_' s)
   \<and> nrvar_' s' = nrvar_' s \<and> nreq_' s' = nreq_' s \<and> nrineq_' s' = nrineq_' s
   \<and> vars_' s' = vars_' s \<and> eqconstr_' s' = eqconstr_' s \<and> ineqconstr_' s' = ineqconstr_' s"
proof -
  from assms obtain m where m: "handles m = handles (model_' s)"
    and r: "optimize_and_fetch slv (s\<lparr>model_' := m\<rparr>) = (b, s')"
    using dense_solve_shape sparse_solve_shape by metis
  from optimize_and_fetch_eq [OF r] m show ?thesis
    by (auto simp add: handles_primitives)
qed

lemma exec_effect:
  assumes "exec slv c s = Inr (bs, s')" and "\<not> is_problem c"
  shows "handles (model_' s') = handles (model_' s)
   \<and> nrvar_' s' = nrvar_' s \<and> nreq_' s' = nreq_' s \<and> nrineq_' s' = nrineq_' s
   \<and> vars_' s' = vars_' s \<and> eqconstr_' s' = eqconstr_' s \<and> ineqconstr_' s' = ineqconstr_' s
   \<and> (bs = [] \<longrightarrow> status_' s' = status_' s \<and> X_' s' = X_' s \<and> Yeq_' s' = Yeq_' s
                    \<and> Yineq_' s' = Yineq_' s)
   \<and> (bs \<noteq> [] \<longrightarrow> bs = [success s']
         \<and> (success s' \<longrightarrow> length (X_' s') = min (nrvar_' s) (length (vars_' s))
               \<and> length (Yeq_' s') = min (nreq_' s) (length (eqconstr_' s))
               \<and> length (Yineq_' s') = min (nrineq_' s) (length (ineqconstr_' s)))
         \<and> (\<not> success s' \<longrightarrow> X_' s' = X_' s \<and> Yeq_' s' = Yeq_' s \<and> Yineq_' s' = Yineq_' s))"
proof (cases c)
  case (Problem n e i)
  with assms show ?thesis by simp
next
  case (DenseSolve Q C Aeq Beq Aineq Bineq XL XU)
  with assms obtain b where b: "bs = [b]"
    and r: "GurobiDense_solve slv Q C Aeq Beq Aineq Bineq XL XU s = Inr (b, s')"
    by (auto split: sum.splits)
  from solve_effect [of slv Q C Aeq Beq Aineq Bineq XL XU s b s'] r b show ?thesis
    by simp
next
  case (SparseSolve Q C Aeq Beq Aineq Bineq XL XU)
  with assms obtain b where b: "bs = [b]"
    and r: "GurobiSparse_solve slv Q C Aeq Beq Aineq Bineq XL XU s = Inr (b, s')"
    by (auto split: sum.splits)
  from solve_effect [of slv _ _ _ _ _ _ XL XU s b s' Q C Aeq Beq Aineq Bineq] r b
  show ?thesis by simp
next
  case (WarmStart ws)
  with assms show ?thesis
    by (auto simp add: warmStart_set_def handles_def var_handles_def constr_handles_def)
next
  case (DisplayOutput d)
  with assms show ?thesis
    by (auto simp add: displayOutput_def handles_def var_handles_def constr_handles_def)
next
  case (FeasibilityTolerance tol)
  with assms show ?thesis
    by (auto simp add: feasibilityTolerance_set_def handles_def var_handles_def
          constr_handles_def split: if_splits)
next
  case (OptimalityTolerance tol)
  with assms show ?thesis
    by (auto simp add: optimalityTolerance_set_def handles_def var_handles_def
          constr_handles_def split: if_splits)
next
  case (SetVariableType i t)
  with assms show ?thesis
    by (auto simp add: setVariableType_def handles_primitives split: if_splits)
qed

lemma well_formed_exec:
  assumes "well_formed s" and "exec slv c s = Inr (bs, s')"
  shows "well_formed s'"
proof (cases "is_problem c")
  case True
  then obtain n e i where "c = Problem n e i" by (cases c) auto
  with assms show ?thesis by (auto simp add: well_formed_problem)
next
  case False
  from exec_effect [OF assms(2) False] assms(1) show ?thesis
    by (simp add: well_formed_cong [of s' s])
qed

lemma well_formed_run:
  assumes "well_formed s" and "run slv cs s = Inr (bs, s')"
  shows "well_formed s'"
  using assms
proof (induction cs arbitrary: s bs)
  case Nil
  then show ?case by simp
next
  case (Cons c cs)
  from Cons.prems(2) obtain b1 s1 b2 where
    e: "exec slv c s = Inr (b1, s1)" and r: "run slv cs s1 = Inr (b2, s')"
    by (auto split: sum.splits)
  from well_formed_exec [OF Cons.prems(1) e] r show ?case
    by (rule Cons.IH)
qed


lemma exec_dimensions:
  assumes "exec slv c s = Inr (bs, s')" and "\<not> is_problem c"
    and "length (vars_' s) = nrvar_' s" "length (eqconstr_' s) = nreq_' s"
    and "length (ineqconstr_' s) = nrineq_' s"
    and "length (X_' s) = nrvar_' s" "length (Yeq_' s) = nreq_' s"
    and "length (Yineq_' s) = nrineq_' s"
  shows "nrvar_' s' = nrvar_' s \<and> nreq_' s' = nreq_' s \<and> nrineq_' s' = nrineq_' s
    \<and> length (vars_' s') = nrvar_' s' \<and> length (eqconstr_' s') = nreq_' s'
    \<and> length (ineqconstr_' s') = nrineq_' s'
    \<and> length (X_' s') = nrvar_' s' \<and> length (Yeq_' s') = nreq_' s'
    \<and> length (Yineq_' s') = nrineq_' s'"
  using exec_effect [OF assms(1,2)] assms(3-8)
  by (cases "bs = []"; cases "success s'") simp_all

lemma run_dimensions:
  assumes "run slv cs s = Inr (bs, s')" and "\<forall>c \<in> set cs. \<not> is_problem c"
    and "length (vars_' s) = nrvar_' s" "length (eqconstr_' s) = nreq_' s"
    and "length (ineqconstr_' s) = nrineq_' s"
    and "length (X_' s) = nrvar_' s" "length (Yeq_' s) = nreq_' s"
    and "length (Yineq_' s) = nrineq_' s"
  shows "nrvar_' s' = nrvar_' s \<and> nreq_' s' = nreq_' s \<and> nrineq_' s' = nrineq_' s
    \<and> length (X_' s') = nrvar_' s' \<and> length (Yeq_' s') = nreq_' s'
    \<and> length (Yineq_' s') = nrineq_' s'"
  using assms
proof (induction cs arbitrary: s bs)
  case Nil
  then show ?case by simp
next
  case (Cons c cs)
  from Cons.prems(1) obtain b1 s1 b2 where
    e: "exec slv c s = Inr (b1, s1)" and r: "run slv cs s1 = Inr (b2, s')"
    by (auto split: sum.splits)
  from Cons.prems(2) have c: "\<not> is_problem c" and cs: "\<forall>c \<in> set cs. \<not> is_problem c"
    by simp_all
  note d = exec_dimensions [OF e c Cons.prems(3-8)]
  from Cons.IH [OF r cs] d show ?case by simp
qed

lemma exec_unsuccessful:
  assumes "exec slv c s = Inr (bs, s')"
  shows "(bs = [] \<longrightarrow> status_' s' = status_' s) \<and> (bs \<noteq> [] \<longrightarrow> bs = [success s'])"
proof (cases "is_problem c")
  case True
  then obtain n e i where "c = Problem n e i" by (cases c) auto
  with assms show ?thesis by (auto simp add: problem_fields)
next
  case False
  from exec_effect [OF assms False] show ?thesis by simp
qed

lemma run_unsuccessful:
  assumes "run slv cs s = Inr (bs, s')"
  shows "(bs = [] \<longrightarrow> status_' s' = status_' s)
    \<and> (\<not> success s \<and> True \<notin> set bs \<longrightarrow> \<not> success s')"
  using assms
proof (induction cs arbitrary: s bs)
  case Nil
  then show ?case by simp
next
  case (Cons c cs)
  from Cons.prems obtain b1 s1 b2 where
    e: "exec slv c s = Inr (b1, s1)" and r: "run slv cs s1 = Inr (b2, s')"
    and bs: "bs = b1 @ b2"
    by (auto split: sum.splits)
  from exec_unsuccessful [OF e] have
    "(\<not> success s \<and> True \<notin> set b1 \<longrightarrow> \<not> success s1)"
    by (cases "b1 = []") (auto simp add: success_def)
  with exec_unsuccessful [OF e] Cons.IH [OF r] bs show ?case by auto
qed



lemma dense_solve_const_solver:
  assumes "md_size Q \<le> length (rvars_' s)" "md_size Q \<le> length (lvars_' s)"
    and "nrvar_' s \<le> length C" "nrvar_' s \<le> length (vars_' s)"
    and "nrvar_' s \<le> length XL" "nrvar_' s \<le> length XU"
    and "md_rows Aeq = nreq_' s" "length Beq = nreq_' s"
    and "0 < nreq_' s \<longrightarrow> nrvar_' s \<le> md_cols Aeq"
    and "md_rows Aineq = nrineq_' s" "length Bineq = nrineq_' s"
    and "0 < nrineq_' s \<longrightarrow> nrvar_' s \<le> md_cols Aineq"
    and "\<And>m. sol_status (slv m) = st"
  shows "\<exists>s'. GurobiDense_solve slv Q C Aeq Beq Aineq Bineq XL XU s
               = Inr (st = GRB_OPTIMAL \<or> st = GRB_SUBOPTIMAL, s')
             \<and> success s' = (st = GRB_OPTIMAL \<or> st = GRB_SUBOPTIMAL)"
proof -
  from dense_solve_returns [OF assms(1-12)] obtain b s' where
    r: "GurobiDense_solve slv Q C Aeq Beq Aineq Bineq XL XU s = Inr (b, s')"
    by blast
  from dense_solve_shape [OF r] obtain m where
    "optimize_and_fetch slv (s\<lparr>model_' := m\<rparr>) = (b, s')" by metis
  from optimize_and_fetch_eq [OF this] assms(13) r show ?thesis
    by auto
qed


section \<open>Dimensions between two configurations\<close>

text \<open>
  Claim C5. The counts are fixed for the lifetime of a configuration: after
  \<open>problem(nrvar, nreq, nrineq)\<close> and any sequence of calls that contains no further
  \<open>problem()\<close> call (in particular any sequence of \<open>solve()\<close> calls), the stored counts
  are \<open>nrvar\<close>, \<open>nreq\<close>, \<open>nrineq\<close> and the result vectors have these lengths, so
  \<open>result()\<close> has length \<open>nrvar\<close>, \<open>dual_eq()\<close> length \<open>nreq\<close> and \<open>dual_ineq()\<close>
  length \<open>nrineq\<close> whenever they return.
\<close>

theorem dimensions_fixed_between_problem_calls:
  assumes "\<forall>c \<in> set calls. \<not> is_problem c"
    and "run slv calls (problem nrvar nreq nrineq s0) = Inr (bs, s)"
  shows "nrvar_' s = nrvar \<and> nreq_' s = nreq \<and> nrineq_' s = nrineq
    \<and> length (X_' s) = nrvar \<and> length (Yeq_' s) = nreq \<and> length (Yineq_' s) = nrineq
    \<and> (\<forall>x. result s = Inr x \<longrightarrow> length x = nrvar)
    \<and> (\<forall>y. dual_eq s = Inr y \<longrightarrow> length y = nreq)
    \<and> (\<forall>y. dual_ineq s = Inr y \<longrightarrow> length y = nrineq)"
proof -
  have "nrvar_' s = nrvar_' (problem nrvar nreq nrineq s0)
    \<and> nreq_' s = nreq_' (problem nrvar nreq nrineq s0)
    \<and> nrineq_' s = nrineq_' (problem nrvar nreq nrineq s0)
    \<and> length (X_' s) = nrvar_' s \<and> length (Yeq_' s) = nreq_' s
    \<and> length (Yineq_' s) = nrineq_' s"
    by (rule run_dimensions [OF assms(2,1)])
       (simp_all add: problem_fields resize_vec_def)
  then have d: "nrvar_' s = nrvar \<and> nreq_' s = nreq \<and> nrineq_' s = nrineq
    \<and> length (X_' s) = nrvar \<and> length (Yeq_' s) = nreq \<and> length (Yineq_' s) = nrineq"
    by (simp add: problem_fields)
  then show ?thesis
    by (auto simp add: result_def dual_eq_def dual_ineq_def split: if_splits)
qed


theorem dimensions_fixed_between_problem_calls_witness:
  "list_all (\<lambda>c. \<not> is_problem c)
     [FeasibilityTolerance (1 / 10 ^ 4),
      DenseSolve \<lparr>md_rows = 2, md_cols = 2, md_coeff = (\<lambda>r c. if r = c then 2 else 0)\<rparr>
        [0, 0] \<lparr>md_rows = 1, md_cols = 2, md_coeff = (\<lambda>r c. 1)\<rparr> [1]
        \<lparr>md_rows = 0, md_cols = 2, md_coeff = (\<lambda>r c. 0)\<rparr> [] [0, 0] [10, 10]]
   \<and> (\<exists>s x. run (\<lambda>m. \<lparr>sol_status = GRB_OPTIMAL, sol_iter = 4, sol_x = (\<lambda>v. 1 / 2),
                        sol_pi = (\<lambda>c. 0)\<rparr>)
               [FeasibilityTolerance (1 / 10 ^ 4),
                DenseSolve \<lparr>md_rows = 2, md_cols = 2, md_coeff = (\<lambda>r c. if r = c then 2 else 0)\<rparr>
                  [0, 0] \<lparr>md_rows = 1, md_cols = 2, md_coeff = (\<lambda>r c. 1)\<rparr> [1]
                  \<lparr>md_rows = 0, md_cols = 2, md_coeff = (\<lambda>r c. 0)\<rparr> [] [0, 0] [10, 10]]
               (problem 2 1 0 GurobiCommon_new) = Inr ([True], s)
             \<and> nrvar_' s = 2 \<and> result s = Inr x \<and> length x = 2
             \<and> length (Yeq_' s) = 1 \<and> length (Yineq_' s) = 0)"
proof -
  let ?slv = "\<lambda>m::GRBModel. \<lparr>sol_status = GRB_OPTIMAL, sol_iter = 4, sol_x = (\<lambda>v. 1 / 2 :: real),
                              sol_pi = (\<lambda>c. 0::real)\<rparr>"
  let ?Q = "\<lparr>md_rows = 2, md_cols = 2, md_coeff = (\<lambda>r c. if r = c then 2 else 0 :: real)\<rparr>"
  let ?A = "\<lparr>md_rows = 1, md_cols = 2, md_coeff = (\<lambda>r c. 1 :: real)\<rparr>"
  let ?E = "\<lparr>md_rows = 0, md_cols = 2, md_coeff = (\<lambda>r c. 0 :: real)\<rparr>"
  let ?calls = "[FeasibilityTolerance (1 / 10 ^ 4),
                 DenseSolve ?Q [0, 0] ?A [1] ?E [] [0, 0] [10, 10]]"
  let ?s0 = "problem 2 1 0 GurobiCommon_new"
  let ?s1 = "?s0\<lparr>model_' := (model_' ?s0)\<lparr>DoubleParam_FeasibilityTol := 1 / 10 ^ 4\<rparr>\<rparr>"
  have np: "\<forall>c \<in> set ?calls. \<not> is_problem c" by simp
  obtain s where r: "GurobiDense_solve ?slv ?Q [0, 0] ?A [1] ?E [] [0, 0] [10, 10] ?s1
                       = Inr (True, s)" and ok: "success s"
    using dense_solve_const_solver
            [of ?Q ?s1 "[0, 0]" "[0, 0]" "[10, 10]" ?A "[1]" ?E "[]" ?slv GRB_OPTIMAL]
    by (auto simp add: problem_fields problem_arrays md_size_def)
  have run: "run ?slv ?calls ?s0 = Inr ([True], s)"
    using r by (simp add: feasibilityTolerance_set_def)
  from dimensions_fixed_between_problem_calls [OF np run] ok
  have "nrvar_' s = 2 \<and> result s = Inr (X_' s) \<and> length (X_' s) = 2
        \<and> length (Yeq_' s) = 1 \<and> length (Yineq_' s) = 0"
    by (simp add: result_def)
  with np run show ?thesis by (simp add: list_all_iff)
qed


section \<open>Before the first successful solve\<close>

text \<open>
  Claim C9. On a freshly constructed adapter \<open>status()\<close> is 0, \<open>success()\<close> is false
  and \<open>result()\<close>, \<open>dual_eq()\<close>, \<open>dual_ineq()\<close> throw. After any sequence of calls
  from the constructor the status is still 0 as long as no \<open>solve()\<close> has been called,
  and the three retrievals still throw as long as no \<open>solve()\<close> has returned true.
\<close>

theorem fresh_adapter_retrieval_throws:
  "status GurobiCommon_new = 0
   \<and> \<not> success GurobiCommon_new
   \<and> result GurobiCommon_new = Inl ''solve unsuccessful; unable to retrieve result''
   \<and> dual_eq GurobiCommon_new = Inl ''solve unsuccessful; unable to retrieve dual_eq''
   \<and> dual_ineq GurobiCommon_new = Inl ''solve unsuccessful; unable to retrieve dual_ineq''
   \<and> (run slv calls GurobiCommon_new = Inr (bs, s) \<longrightarrow>
        (bs = [] \<longrightarrow> status s = 0)
        \<and> (True \<notin> set bs \<longrightarrow>
             \<not> success s
             \<and> result s = Inl ''solve unsuccessful; unable to retrieve result''
             \<and> dual_eq s = Inl ''solve unsuccessful; unable to retrieve dual_eq''
             \<and> dual_ineq s = Inl ''solve unsuccessful; unable to retrieve dual_ineq''))"
proof -
  have new: "status_' GurobiCommon_new = 0 \<and> \<not> success GurobiCommon_new"
    by (simp add: GurobiCommon_new_def success_def GRB_status_defs)
  have "(bs = [] \<longrightarrow> status s = 0) \<and> (True \<notin> set bs \<longrightarrow> \<not> success s)"
    if "run slv calls GurobiCommon_new = Inr (bs, s)"
    using run_unsuccessful [OF that] new by (simp add: status_def)
  with new show ?thesis
    by (auto simp add: status_def result_def dual_eq_def dual_ineq_def)
qed


theorem fresh_adapter_retrieval_throws_witness:
  "\<exists>s. run (\<lambda>m. \<lparr>sol_status = GRB_INFEASIBLE, sol_iter = 0, sol_x = (\<lambda>v. 0), sol_pi = (\<lambda>c. 0)\<rparr>)
          [Problem 1 1 0,
           DenseSolve \<lparr>md_rows = 1, md_cols = 1, md_coeff = (\<lambda>r c. 2)\<rparr> [0]
             \<lparr>md_rows = 1, md_cols = 1, md_coeff = (\<lambda>r c. 1)\<rparr> [20]
             \<lparr>md_rows = 0, md_cols = 1, md_coeff = (\<lambda>r c. 0)\<rparr> [] [0] [10]]
          GurobiCommon_new = Inr ([False], s)
       \<and> True \<notin> set [False]
       \<and> \<not> success s
       \<and> result s = Inl ''solve unsuccessful; unable to retrieve result''"
proof -
  let ?slv = "\<lambda>m::GRBModel. \<lparr>sol_status = GRB_INFEASIBLE, sol_iter = 0, sol_x = (\<lambda>v. 0 :: real),
                              sol_pi = (\<lambda>c. 0::real)\<rparr>"
  let ?Q = "\<lparr>md_rows = 1, md_cols = 1, md_coeff = (\<lambda>r c. 2 :: real)\<rparr>"
  let ?A = "\<lparr>md_rows = 1, md_cols = 1, md_coeff = (\<lambda>r c. 1 :: real)\<rparr>"
  let ?E = "\<lparr>md_rows = 0, md_cols = 1, md_coeff = (\<lambda>r c. 0 :: real)\<rparr>"
  let ?calls = "[Problem 1 1 0, DenseSolve ?Q [0] ?A [20] ?E [] [0] [10]]"
  obtain s where r: "GurobiDense_solve ?slv ?Q [0] ?A [20] ?E [] [0] [10]
                       (problem 1 1 0 GurobiCommon_new) = Inr (False, s)"
    using dense_solve_const_solver
            [of ?Q "problem 1 1 0 GurobiCommon_new" "[0]" "[0]" "[10]" ?A "[20]" ?E "[]" ?slv
               GRB_INFEASIBLE]
    by (auto simp add: problem_fields problem_arrays md_size_def GRB_status_defs)
  have run: "run ?slv ?calls GurobiCommon_new = Inr ([False], s)"
    using r by simp
  from fresh_adapter_retrieval_throws [of ?slv ?calls "[False]" s] run
  have "\<not> success s \<and> result s = Inl ''solve unsuccessful; unable to retrieve result''"
    by simp
  with run show ?thesis by auto
qed


section \<open>The assertions of the dense constraint update\<close>

text \<open>
  Claim C7. When \<open>Aeq\<close> has \<open>nreq_\<close> rows and \<open>Beq\<close> has length \<open>nreq_\<close>, and \<open>Aineq\<close>
  has \<open>nrineq_\<close> rows and \<open>Bineq\<close> has length \<open>nrineq_\<close>, the two assertions of
  \<open>GurobiDense::updateConstr\<close> hold on both calls made from \<open>GurobiDense::solve\<close>:
  \<open>solve\<close> does not end in a failed assertion.
\<close>

theorem dense_updateConstr_assertions_hold:
  assumes "md_rows Aeq = nreq_' s" and "length Beq = nreq_' s"
    and "md_rows Aineq = nrineq_' s" and "length Bineq = nrineq_' s"
  shows "(\<forall>msg. GurobiDense_solve slv Q C Aeq Beq Aineq Bineq XL XU s
                  \<noteq> Inl (AssertionFailed msg))
    \<and> (\<forall>cs vs t msg. GurobiDense_updateConstr cs vs Aeq Beq (nreq_' s) t
                  \<noteq> Inl (AssertionFailed msg))
    \<and> (\<forall>cs vs t msg. GurobiDense_updateConstr cs vs Aineq Bineq (nrineq_' s) t
                  \<noteq> Inl (AssertionFailed msg))"
proof -
  have u: "GurobiDense_updateConstr cs vs A b len t \<noteq> Inl (AssertionFailed msg)"
    if "md_rows A = len" "length b = len" for cs vs A b len t msg
    using that by (simp add: GurobiDense_updateConstr_def Let_def)
  have "GurobiDense_solve slv Q C Aeq Beq Aineq Bineq XL XU s \<noteq> Inl (AssertionFailed msg)"
    for msg
  proof
    assume f: "GurobiDense_solve slv Q C Aeq Beq Aineq Bineq XL XU s = Inl (AssertionFailed msg)"
    then consider
      (first) m3 where "GurobiDense_updateConstr (eqconstr_' s) (eqvars_' s) Aeq Beq (nreq_' s)
                          (s\<lparr>model_' := m3\<rparr>) = Inl (AssertionFailed msg)"
    | (second) m3 s4 where
        "GurobiDense_updateConstr (eqconstr_' s) (eqvars_' s) Aeq Beq (nreq_' s)
           (s\<lparr>model_' := m3\<rparr>) = Inr s4"
        "GurobiDense_updateConstr (ineqconstr_' s4) (ineqvars_' s4) Aineq Bineq (nrineq_' s4) s4
           = Inl (AssertionFailed msg)"
      by (auto simp add: GurobiDense_solve_def Let_def split: if_splits sum.splits)
    then show False
    proof cases
      case first
      with u [OF assms(1,2)] show False by blast
    next
      case second
      from dense_updateConstr_frame [OF second(1)] have "nrineq_' s4 = nrineq_' s" by auto
      with second(2) u [OF assms(3,4)] show False by metis
    qed
  qed
  with u [OF assms(1,2)] u [OF assms(3,4)] show ?thesis by blast
qed

theorem dense_updateConstr_assertions_hold_witness:
  "md_rows \<lparr>md_rows = 1, md_cols = 1, md_coeff = (\<lambda>r c. 1)\<rparr>
     = nreq_' (problem 1 1 1 GurobiCommon_new)
   \<and> length [1 :: real] = nreq_' (problem 1 1 1 GurobiCommon_new)
   \<and> md_rows \<lparr>md_rows = 1, md_cols = 1, md_coeff = (\<lambda>r c. 1)\<rparr>
     = nrineq_' (problem 1 1 1 GurobiCommon_new)
   \<and> length [5 :: real] = nrineq_' (problem 1 1 1 GurobiCommon_new)
   \<and> (\<exists>s. GurobiDense_solve
            (\<lambda>m. \<lparr>sol_status = GRB_OPTIMAL, sol_iter = 4, sol_x = (\<lambda>v. 1), sol_pi = (\<lambda>c. 0)\<rparr>)
            \<lparr>md_rows = 1, md_cols = 1, md_coeff = (\<lambda>r c. 2)\<rparr> [0]
            \<lparr>md_rows = 1, md_cols = 1, md_coeff = (\<lambda>r c. 1)\<rparr> [1]
            \<lparr>md_rows = 1, md_cols = 1, md_coeff = (\<lambda>r c. 1)\<rparr> [5]
            [0] [10] (problem 1 1 1 GurobiCommon_new) = Inr (True, s))
   \<and> (\<forall>msg. GurobiDense_solve
            (\<lambda>m. \<lparr>sol_status = GRB_OPTIMAL, sol_iter = 4, sol_x = (\<lambda>v. 1), sol_pi = (\<lambda>c. 0)\<rparr>)
            \<lparr>md_rows = 1, md_cols = 1, md_coeff = (\<lambda>r c. 2)\<rparr> [0]
            \<lparr>md_rows = 1, md_cols = 1, md_coeff = (\<lambda>r c. 1)\<rparr> [1]
            \<lparr>md_rows = 1, md_cols = 1, md_coeff = (\<lambda>r c. 1)\<rparr> [5]
            [0] [10] (problem 1 1 1 GurobiCommon_new) \<noteq> Inl (AssertionFailed msg))"
proof -
  let ?slv = "\<lambda>m::GRBModel. \<lparr>sol_status = GRB_OPTIMAL, sol_iter = 4, sol_x = (\<lambda>v. 1 :: real),
                              sol_pi = (\<lambda>c. 0::real)\<rparr>"
  let ?Q = "\<lparr>md_rows = 1, md_cols = 1, md_coeff = (\<lambda>r c. 2 :: real)\<rparr>"
  let ?A = "\<lparr>md_rows = 1, md_cols = 1, md_coeff = (\<lambda>r c. 1 :: real)\<rparr>"
  let ?s = "problem 1 1 1 GurobiCommon_new"
  have h: "md_rows ?A = nreq_' ?s" "length [1 :: real] = nreq_' ?s"
    "md_rows ?A = nrineq_' ?s" "length [5 :: real] = nrineq_' ?s"
    by (simp_all add: problem_fields)
  obtain s where r: "GurobiDense_solve ?slv ?Q [0] ?A [1] ?A [5] [0] [10] ?s = Inr (True, s)"
    using dense_solve_const_solver
            [of ?Q ?s "[0]" "[0]" "[10]" ?A "[1]" ?A "[5]" ?slv GRB_OPTIMAL]
    by (auto simp add: problem_fields problem_arrays md_size_def)
  from dense_updateConstr_assertions_hold [OF h, of ?slv ?Q "[0]" "[0]" "[10]"] h r
  show ?thesis by blast
qed



section \<open>Dense against sparse\<close>

lemma foldl_invariant:
  assumes "\<And>m x. g (f m x) = g m"
  shows "g (foldl f m xs) = g m"
  using assms by (induction xs arbitrary: m) simp_all

lemma m_constrs_chgCoeffs: "m_constrs (chgCoeffs cs vs as n m) = m_constrs m"
  unfolding chgCoeffs_def
  by (rule foldl_invariant) (simp add: case_prod_unfold chgCoeff_def)

text \<open>The sparse constraint update writes no right-hand side for an index that \<open>b\<close>
  does not store: with no stored entry at all, every constraint keeps the attributes
  it had.\<close>

lemma sparse_updateConstr_keeps_constrs:
  assumes "GurobiSparse_updateConstr cs vs A b len s = Inr s'" and "sv_entries b = []"
  shows "m_constrs (model_' s') = m_constrs (model_' s)"
proof -
  have inner: "m_constrs (foldl (\<lambda>m' (r, a). chgCoeff (cs ! r) (vars_' s ! k) a m') m0 es)
                 = m_constrs m0" for m0 k es
    by (rule foldl_invariant) (simp add: case_prod_unfold chgCoeff_def)
  have outer: "m_constrs (foldl (\<lambda>m k.
                       foldl (\<lambda>m' (r, a). chgCoeff (cs ! r) (vars_' s ! k) a m')
                         (chgCoeffs cs (drop (len * k) vs) (replicate len 0) len m)
                         (sm_outer A ! k))
                     m0 xs) = m_constrs m0" for m0 xs
    by (rule foldl_invariant) (simp add: inner m_constrs_chgCoeffs)
  from assms show ?thesis
    by (cases "len > 0")
       (auto simp add: GurobiSparse_updateConstr_def Let_def outer split: if_splits)
qed

text \<open>The dense constraint update writes every right-hand side.\<close>

lemma map_of_upd_attr:
  "map_of (upd_attr f h xs) k = (if k = h then map_option f (map_of xs k) else map_of xs k)"
  by (induction xs) (auto simp add: upd_attr_def)

lemma foldl_set_RHS:
  assumes "distinct (map fst ps)"
  shows "map_of (m_constrs (foldl (\<lambda>m' (h, x). set_RHS h x m') m ps)) c
           = (case map_of ps c of
                None \<Rightarrow> map_of (m_constrs m) c
              | Some x \<Rightarrow> map_option (\<lambda>a. a\<lparr>RHS := x\<rparr>) (map_of (m_constrs m) c))"
  using assms
proof (induction ps arbitrary: m)
  case Nil
  show ?case by simp
next
  case (Cons p ps)
  obtain h x where p: "p = (h, x)" by (cases p)
  from Cons.prems p have d: "distinct (map fst ps)" and nh: "map_of ps h = None"
    by (auto simp add: map_of_eq_None_iff)
  show ?case
    using Cons.IH [OF d, of "set_RHS h x m"] nh
    by (auto simp add: p set_RHS_def map_of_upd_attr split: option.splits)
qed

lemma dense_updateConstr_sets_rhs:
  assumes "GurobiDense_updateConstr cs vs A b len s = Inr s'"
    and "distinct cs" and "length cs = len" and "j < len"
  shows "constr_attr (model_' s') (cs ! j)
           = map_option (\<lambda>a. a\<lparr>RHS := b ! j\<rparr>) (constr_attr (model_' s) (cs ! j))"
proof -
  from assms(1) have lb: "length b = len"
    by (auto simp add: GurobiDense_updateConstr_def split: if_splits)
  have coeffs: "m_constrs (foldl (\<lambda>m i. chgCoeffs cs (drop (k * i) vs) (md_col A i) (md_rows A) m)
                     m0 xs) = m_constrs m0" for k m0 xs
    by (rule foldl_invariant) (rule m_constrs_chgCoeffs)
  have z: "map_of (zip cs b) (cs ! j) = Some (b ! j)"
    using assms(2-4) lb by (simp add: map_of_zip_nth)
  define m1 where "m1 = (if len > 0
      then foldl (\<lambda>m i. chgCoeffs cs (drop (len * i) vs) (md_col A i) (md_rows A) m)
             (model_' s) [0..<nrvar_' s]
      else model_' s)"
  have m1: "m_constrs m1 = m_constrs (model_' s)"
    by (simp add: m1_def coeffs)
  from assms(1) have s': "model_' s' = set_array set_RHS cs b len m1"
    by (auto simp add: GurobiDense_updateConstr_def Let_def m1_def split: if_splits)
  have "distinct (map fst (zip cs b))"
    using assms(2,3) lb by (simp add: map_fst_zip)
  from foldl_set_RHS [OF this, of m1 "cs ! j"] z m1 s' assms(3) lb show ?thesis
    by (simp add: constr_attr_def set_array_def)
qed


text \<open>The sparse constraint update sets the right-hand side of the constraints whose
  index \<open>b\<close> stores, and of no other.\<close>

lemma sparse_updateConstr_sets_stored_rhs:
  assumes r: "GurobiSparse_updateConstr cs vs A b len s = Inr s'"
    and "0 < len" and dc: "distinct cs" and di: "distinct (map fst (sv_entries b))"
    and j: "j < length cs"
  shows "constr_attr (model_' s') (cs ! j)
           = (case map_of (sv_entries b) j of
                None \<Rightarrow> constr_attr (model_' s) (cs ! j)
              | Some x \<Rightarrow> map_option (\<lambda>a. a\<lparr>RHS := x\<rparr>) (constr_attr (model_' s) (cs ! j)))"
proof -
  let ?ps = "map (\<lambda>(i, a). (cs ! i, a)) (sv_entries b)"
  from r \<open>0 < len\<close> have inb: "\<forall>(i, a) \<in> set (sv_entries b). i < length cs"
    by (auto simp add: GurobiSparse_updateConstr_def list_ex_iff split: if_splits)
  have inner: "m_constrs (foldl (\<lambda>m' (r, a). chgCoeff (cs ! r) (vars_' s ! k) a m') m0 es)
                 = m_constrs m0" for m0 k es
    by (rule foldl_invariant) (simp add: case_prod_unfold chgCoeff_def)
  have outer: "m_constrs (foldl (\<lambda>m k.
                       foldl (\<lambda>m' (r, a). chgCoeff (cs ! r) (vars_' s ! k) a m')
                         (chgCoeffs cs (drop (len * k) vs) (replicate len 0) len m)
                         (sm_outer A ! k))
                     m0 xs) = m_constrs m0" for m0 xs
    by (rule foldl_invariant) (simp add: inner m_constrs_chgCoeffs)
  define m1 where "m1 = foldl (\<lambda>m k.
                       foldl (\<lambda>m' (r, a). chgCoeff (cs ! r) (vars_' s ! k) a m')
                         (chgCoeffs cs (drop (len * k) vs) (replicate len 0) len m)
                         (sm_outer A ! k))
                     (model_' s) [0..<outerSize A]"
  have m1: "m_constrs m1 = m_constrs (model_' s)"
    by (simp add: m1_def outer)
  have fm: "foldl (\<lambda>m (i, a). set_RHS (cs ! i) a m) m0 es
            = foldl (\<lambda>m' (h, x). set_RHS h x m') m0 (map (\<lambda>(i, a). (cs ! i, a)) es)" for m0 es
    by (induction es arbitrary: m0) (simp_all add: case_prod_unfold)
  from r \<open>0 < len\<close> have s': "model_' s' = foldl (\<lambda>m' (h, x). set_RHS h x m') m1 ?ps"
    by (auto simp add: GurobiSparse_updateConstr_def Let_def m1_def fm split: if_splits)
  have inj: "inj_on (\<lambda>i. cs ! i) (fst ` set (sv_entries b))"
  proof (rule inj_onI)
    fix x y
    assume "x \<in> fst ` set (sv_entries b)" "y \<in> fst ` set (sv_entries b)" "cs ! x = cs ! y"
    with inb have "x < length cs" "y < length cs" by auto
    with dc \<open>cs ! x = cs ! y\<close> show "x = y" by (simp add: nth_eq_iff_index_eq)
  qed
  have dps: "distinct (map fst ?ps)"
  proof -
    have e: "map fst ?ps = map (\<lambda>i. cs ! i) (map fst (sv_entries b))"
      by (simp add: case_prod_unfold comp_def)
    have "distinct (map (\<lambda>i. cs ! i) (map fst (sv_entries b)))"
      unfolding distinct_map [of "\<lambda>i. cs ! i" "map fst (sv_entries b)"]
      using di inj by simp
    then show ?thesis unfolding e .
  qed
  have look_gen: "map_of (map (\<lambda>(i, a). (cs ! i, a)) es) (cs ! j) = map_of es j"
    if "\<forall>(i, a) \<in> set es. i < length cs" for es :: "(nat \<times> real) list"
    using that
  proof (induction es)
    case Nil
    show ?case by simp
  next
    case (Cons e es)
    obtain i a where e: "e = (i, a)" by (cases e)
    from Cons.prems e have "i < length cs" by simp
    with dc j have "cs ! i = cs ! j \<longleftrightarrow> i = j"
      by (simp add: nth_eq_iff_index_eq)
    with Cons show ?case by (auto simp add: e)
  qed
  note look = look_gen [OF inb]
  from foldl_set_RHS [OF dps, of m1 "cs ! j"] look m1 s' show ?thesis
    by (simp add: constr_attr_def split: option.splits)
qed


text \<open>Hence the two updates leave the same right-hand side at a constraint whose
  right-hand side was 0 before (as \<open>problem\<close> leaves it), when the dense vector has
  the stored values of the sparse one and 0 elsewhere.\<close>

lemma updateConstr_rhs_agree_from_zero:
  assumes d: "GurobiDense_updateConstr cs vs Ad bd len s = Inr sd"
    and sp: "GurobiSparse_updateConstr cs vs' As bs len s = Inr ss"
    and "0 < len" and dc: "distinct cs" and l: "length cs = len"
    and di: "distinct (map fst (sv_entries bs))" and j: "j < len"
    and rep: "bd ! j = (case map_of (sv_entries bs) j of None \<Rightarrow> 0 | Some x \<Rightarrow> x)"
    and zero: "map_option RHS (constr_attr (model_' s) (cs ! j)) = Some 0"
  shows "constr_attr (model_' sd) (cs ! j) = constr_attr (model_' ss) (cs ! j)"
proof -
  from zero obtain a where a: "constr_attr (model_' s) (cs ! j) = Some a" and r: "RHS a = 0"
    by auto
  from r have same: "a\<lparr>RHS := 0\<rparr> = a" by simp
  from j l have j': "j < length cs" by simp
  show ?thesis
    unfolding dense_updateConstr_sets_rhs [OF d dc l j]
      sparse_updateConstr_sets_stored_rhs [OF sp \<open>0 < len\<close> dc di j']
    using rep a same by (simp split: option.splits)
qed


text \<open>
  Claim C4 says that presenting the same problem densely to \<open>GurobiDense::solve\<close> and
  sparsely to \<open>GurobiSparse::solve\<close> configures the same model, right-hand sides
  included. The code does not do that on every call. The dense \<open>updateConstr\<close> writes
  all \<open>len\<close> right-hand sides. The sparse \<open>updateConstr\<close> resets the coefficients
  with a buffer of zeros before it writes the stored entries of \<open>A\<close>, but it writes a
  right-hand side only for the stored entries of \<open>b\<close>: where \<open>b\<close> has no stored
  entry, the right-hand side of an earlier solve stays in the model.

  The input: one variable, one equality constraint, no inequality constraint. A first
  sparse solve with \<open>Beq = (5)\<close> leaves the right-hand side 5. From that state, the
  dense solve with \<open>Beq = (0)\<close> sets the right-hand side to 0; the sparse solve with
  the same vector (size 1, no stored entry) leaves it at 5.
\<close>

theorem sparse_solve_keeps_stale_rhs:
  "(case GurobiSparse_solve
           (\<lambda>m. \<lparr>sol_status = GRB_OPTIMAL, sol_iter = 1, sol_x = (\<lambda>v. 0), sol_pi = (\<lambda>c. 0)\<rparr>)
           \<lparr>sm_rows = 1, sm_outer = [[(0, 2)]]\<rparr> \<lparr>sv_size = 1, sv_entries = []\<rparr>
           \<lparr>sm_rows = 1, sm_outer = [[(0, 1)]]\<rparr> \<lparr>sv_size = 1, sv_entries = [(0, 5)]\<rparr>
           \<lparr>sm_rows = 0, sm_outer = [[]]\<rparr> \<lparr>sv_size = 0, sv_entries = []\<rparr>
           [0] [10] (problem 1 1 0 GurobiCommon_new) of
      Inl e \<Rightarrow> False
    | Inr (b1, s1) \<Rightarrow>
        eqconstr_' s1 = [0]
        \<and> map_option RHS (constr_attr (model_' s1) 0) = Some 5
        \<and> (case GurobiDense_solve
                   (\<lambda>m. \<lparr>sol_status = GRB_OPTIMAL, sol_iter = 1, sol_x = (\<lambda>v. 0),
                          sol_pi = (\<lambda>c. 0)\<rparr>)
                   \<lparr>md_rows = 1, md_cols = 1, md_coeff = (\<lambda>r c. 2)\<rparr> [0]
                   \<lparr>md_rows = 1, md_cols = 1, md_coeff = (\<lambda>r c. 1)\<rparr> [0]
                   \<lparr>md_rows = 0, md_cols = 1, md_coeff = (\<lambda>r c. 0)\<rparr> []
                   [0] [10] s1 of
              Inl e \<Rightarrow> False
            | Inr (b2, sd) \<Rightarrow> map_option RHS (constr_attr (model_' sd) 0) = Some 0)
        \<and> (case GurobiSparse_solve
                   (\<lambda>m. \<lparr>sol_status = GRB_OPTIMAL, sol_iter = 1, sol_x = (\<lambda>v. 0),
                          sol_pi = (\<lambda>c. 0)\<rparr>)
                   \<lparr>sm_rows = 1, sm_outer = [[(0, 2)]]\<rparr> \<lparr>sv_size = 1, sv_entries = []\<rparr>
                   \<lparr>sm_rows = 1, sm_outer = [[(0, 1)]]\<rparr> \<lparr>sv_size = 1, sv_entries = []\<rparr>
                   \<lparr>sm_rows = 0, sm_outer = [[]]\<rparr> \<lparr>sv_size = 0, sv_entries = []\<rparr>
                   [0] [10] s1 of
              Inl e \<Rightarrow> False
            | Inr (b3, ss) \<Rightarrow> map_option RHS (constr_attr (model_' ss) 0) = Some 5))"
  by (simp add: GurobiSparse_solve_def GurobiSparse_updateConstr_def GurobiDense_solve_def
        GurobiDense_updateConstr_def problem_def GurobiCommon_new_def new_model_def Let_def
        addVars_def addConstrs_def set_array_def set_Sense_def set_LB_def set_UB_def
        set_RHS_def upd_attr_def chgCoeffs_def chgCoeff_def setObjective_def
        optimize_and_fetch_def optimize_def success_def resize_mat_def resize_vec_def
        md_size_def md_data_def md_col_def sm_triples_def outerSize_def constr_attr_def
        empty_expr_def)


end
